theory Spec2Isabelle
  imports Complex_Main "HOL-Library.AList"
begin

section \<open>Python values, exceptions and effects\<close>

text \<open>
  The values that travel through \<^verbatim>\<open>test/python/logs.py\<close> and
  \<^verbatim>\<open>test/python/runtime.py\<close>. A dict is an association list in insertion order
  (\<^verbatim>\<open>.items()\<close> iterates in that order). Python floats are idealised as reals: the
  code only copies and prints them.
\<close>

datatype pyval =
    PNone
  | PBool bool
  | PInt int
  | PFloat real
  | PStr string
  | PList "pyval list"
  | PDict "(pyval \<times> pyval) list"

fun type_name :: "pyval \<Rightarrow> string" where
  "type_name PNone = ''NoneType''"
| "type_name (PBool _) = ''bool''"
| "type_name (PInt _) = ''int''"
| "type_name (PFloat _) = ''float''"
| "type_name (PStr _) = ''str''"
| "type_name (PList _) = ''list''"
| "type_name (PDict _) = ''dict''"

text \<open>
  An exception object is kept as: which \<^verbatim>\<open>except\<close> clause of this code catches it,
  the name of its class, and \<^verbatim>\<open>str(e)\<close>. The two handlers of \<^verbatim>\<open>TestResults.run\<close> are
  \<^verbatim>\<open>except asyncio.TimeoutError\<close> and \<^verbatim>\<open>except Exception\<close>; an exception outside
  \<^verbatim>\<open>Exception\<close> (\<^verbatim>\<open>CancelledError\<close>, \<^verbatim>\<open>KeyboardInterrupt\<close>, \<^verbatim>\<open>SystemExit\<close>) is
  caught by neither.
\<close>

datatype exc_kind = AsyncioTimeout | OtherException | NonException

datatype pyexc = PyExc exc_kind string string

definition quoted :: "string \<Rightarrow> string" where
  "quoted s = CHR 0x27 # s @ [CHR 0x27]"

definition attribute_error :: "string \<Rightarrow> string \<Rightarrow> pyexc" where
  "attribute_error tyname attr =
     PyExc OtherException ''AttributeError''
       (quoted tyname @ '' object has no attribute '' @ quoted attr)"

text \<open>What \<^verbatim>\<open>TestResults.run\<close> itself raises.\<close>

datatype run_error =
    TestError "pyval list"          \<comment> \<open>\<^verbatim>\<open>TestError(*args)\<close>\<close>
  | TestTimeoutError "pyval list"   \<comment> \<open>\<^verbatim>\<open>TestTimeoutError(*args)\<close>\<close>
  | Other pyexc                     \<comment> \<open>an exception that run neither raises by name nor catches\<close>

datatype outcome = Returned pyval | Raised pyexc

text \<open>
  A fitted complexity class of the external \<^verbatim>\<open>big_o\<close> library, kept as what \<^verbatim>\<open>str()\<close>
  gives for it.
\<close>

datatype complexity = Complexity string

fun str_of :: "complexity \<Rightarrow> string" where
  "str_of (Complexity s) = s"

text \<open>
  A log record is the level, the format string and the arguments as they are passed to the
  logger (the \<^verbatim>\<open>logging\<close> module formats lazily and never raises into the caller).
  \<open>Capitalized k\<close> stands for the string \<^verbatim>\<open>k.capitalize()\<close>.
\<close>

datatype logarg = Val pyval | Exc pyexc | Capitalized string | Fit complexity

datatype level = INFO | ERROR

text \<open>
  The observable effects of \<^verbatim>\<open>TestResults.run\<close>, in order: \<open>Invoked\<close> is one evaluation
  of \<^verbatim>\<open>await asyncio.wait_for(self.test(), timeout=...)\<close>, \<open>Log\<close> one record handed to
  the module's logger.
\<close>

datatype event = Invoked | Log level string "logarg list"

definition invocations :: "event list \<Rightarrow> nat" where
  "invocations evs = length (filter (\<lambda>e. e = Invoked) evs)"

text \<open>
  A Python callable as \<^verbatim>\<open>TestResults\<close> uses it: the name of its class, its
  \<^verbatim>\<open>__name__\<close> attribute (absent for, say, a \<^verbatim>\<open>functools.partial\<close>), and what
  \<^verbatim>\<open>await asyncio.wait_for(c(), timeout=t)\<close> does in a world \<open>w\<close>: the value returned or
  the exception raised (\<^verbatim>\<open>asyncio.TimeoutError\<close> when the deadline comes first), and the
  world it leaves. \<^verbatim>\<open>asyncio\<close> is not part of this code, so its effect is carried by
  the callable.
\<close>

record 'w callable =
  class_name :: string
  dunder_name :: "string option"
  awaited :: "real \<Rightarrow> 'w \<Rightarrow> outcome \<times> 'w"

section \<open>\<^verbatim>\<open>test/python/logs.py\<close>: class TestResults\<close>

record 'w TestResults =
  test :: "'w callable"
  test_name :: string
  n_repeats :: "int option"

text \<open>An optional parameter of a Python call: left out, or given.\<close>

datatype 'a arg = Omitted | Given 'a

text \<open>
  \<^verbatim>\<open>__init__(self, test, n_repeats: Optional[int] = 3)\<close>. Reading \<^verbatim>\<open>test.__name__\<close>
  raises AttributeError when the callable has none.
\<close>

definition TestResults_init ::
  "'w callable \<Rightarrow> int option arg \<Rightarrow> pyexc + 'w TestResults" where
  "TestResults_init t nr =
     (case dunder_name t of
        None \<Rightarrow> Inl (attribute_error (class_name t) ''__name__'')
      | Some nm \<Rightarrow>
          Inr \<lparr> test = t, test_name = nm,
                n_repeats = (case nr of Omitted \<Rightarrow> Some 3 | Given v \<Rightarrow> v) \<rparr>)"

text \<open>
  \<^verbatim>\<open>_log_test_results\<close>, inner loop:
  \<^verbatim>\<open>for key, value in result.items(): logger.info("  %s: %s", key.capitalize(), value)\<close>.
  \<^verbatim>\<open>key.capitalize()\<close> raises AttributeError when the key is not a string.
\<close>

fun log_items :: "(pyval \<times> pyval) list \<Rightarrow> (pyexc + unit) \<times> event list" where
  "log_items [] = (Inr (), [])"
| "log_items ((key, v) # rest) =
     (case key of
        PStr k \<Rightarrow>
          (let (r, evs) = log_items rest
           in (r, Log INFO ''  %s: %s'' [Capitalized k, Val v] # evs))
      | _ \<Rightarrow> (Inl (attribute_error (type_name key) ''capitalize''), []))"

text \<open>
  Outer loop: \<^verbatim>\<open>for test_name, result in test_results.items()\<close>. \<^verbatim>\<open>result.items()\<close>
  raises AttributeError when the value is not a dict.
\<close>

fun log_subtests :: "(pyval \<times> pyval) list \<Rightarrow> (pyexc + unit) \<times> event list" where
  "log_subtests [] = (Inr (), [])"
| "log_subtests ((subtest, result) # rest) =
     (case result of
        PDict items \<Rightarrow>
          (case log_items items of
             (Inl e, evs) \<Rightarrow> (Inl e, Log INFO ''Subtest: %s'' [Val subtest] # evs)
           | (Inr _, evs) \<Rightarrow>
               (let (r, evs') = log_subtests rest
                in (r, Log INFO ''Subtest: %s'' [Val subtest] # evs @ evs')))
      | _ \<Rightarrow>
          (Inl (attribute_error (type_name result) ''items''),
           [Log INFO ''Subtest: %s'' [Val subtest]]))"

definition log_test_results ::
  "'w TestResults \<Rightarrow> pyval \<Rightarrow> int \<Rightarrow> (pyexc + pyval) \<times> event list" where
  "log_test_results tr test_results attempt =
     (let first = Log INFO ''Test %s (Attempt %s) - Successful''
                    [Val (PStr (test_name tr)), Val (PInt attempt)]
      in case test_results of
           PDict items \<Rightarrow>
             (case log_subtests items of
                (Inl e, evs) \<Rightarrow> (Inl e, first # evs)
              | (Inr _, evs) \<Rightarrow> (Inr test_results, first # evs))
         | _ \<Rightarrow> (Inr test_results, [first]))"

text \<open>What one pass through the body of the \<^verbatim>\<open>for\<close> loop of \<^verbatim>\<open>run\<close> ends in.\<close>

datatype step = Return pyval | Raise run_error | Continue

text \<open>
  The two \<^verbatim>\<open>except\<close> clauses of \<^verbatim>\<open>run\<close>, for an exception raised in the \<^verbatim>\<open>try\<close>
  block during attempt \<open>attempt\<close> of \<open>n\<close>.
\<close>

fun except_clauses ::
  "'w TestResults \<Rightarrow> int \<Rightarrow> int \<Rightarrow> pyexc \<Rightarrow> step \<times> event list" where
  "except_clauses tr n attempt (PyExc AsyncioTimeout c m) =
     (if attempt = n
      then Raise (TestTimeoutError
                    [PStr ''Test %s consistently timed out'', PStr (test_name tr)])
      else Continue,
      [Log ERROR ''Test %s timed out (Attempt %s/%s)''
         [Val (PStr (test_name tr)), Val (PInt attempt), Val (PInt n)]])"
| "except_clauses tr n attempt (PyExc OtherException c m) =
     (if attempt = n
      then Raise (TestError
                    [PStr ''Test %s failed after %s attempts'', PStr (test_name tr), PInt n])
      else Continue,
      [Log ERROR ''Test %s failed (Attempt %s/%s): %s''
         [Val (PStr (test_name tr)), Val (PInt attempt), Val (PInt n),
          Exc (PyExc OtherException c m)]])"
| "except_clauses tr n attempt (PyExc NonException c m) =
     (Raise (Other (PyExc NonException c m)), [])"

text \<open>
  The loop body: the \<^verbatim>\<open>try\<close> block holds both the awaited call, with the timeout
  \<^verbatim>\<open>10.0\<close>, and \<^verbatim>\<open>return self._log_test_results(result, attempt)\<close>, so an exception of
  either reaches the \<^verbatim>\<open>except\<close> clauses.
\<close>

definition attempt_body ::
  "'w TestResults \<Rightarrow> int \<Rightarrow> int \<Rightarrow> 'w \<Rightarrow> step \<times> event list \<times> 'w" where
  "attempt_body tr n attempt w =
     (case awaited (test tr) 10 w of
        (Returned result, w') \<Rightarrow>
          (case log_test_results tr result attempt of
             (Inr v, evs) \<Rightarrow> (Return v, Invoked # evs, w')
           | (Inl e, evs) \<Rightarrow>
               (case except_clauses tr n attempt e of
                  (st, evs') \<Rightarrow> (st, Invoked # evs @ evs', w')))
      | (Raised e, w') \<Rightarrow>
          (case except_clauses tr n attempt e of
             (st, evs') \<Rightarrow> (st, Invoked # evs', w')))"

text \<open>
  \<^verbatim>\<open>for attempt in range(1, self.n_repeats + 1)\<close> over the attempt numbers still to
  come, and the \<^verbatim>\<open>raise TestError("Unexpected failure ...")\<close> after the loop.
\<close>

fun run_attempts ::
  "'w TestResults \<Rightarrow> int \<Rightarrow> int list \<Rightarrow> 'w \<Rightarrow> (run_error + pyval) \<times> event list \<times> 'w" where
  "run_attempts tr n [] w =
     (Inl (TestError [PStr ''Unexpected failure in test %s'', PStr (test_name tr)]), [], w)"
| "run_attempts tr n (attempt # rest) w =
     (case attempt_body tr n attempt w of
        (Return v, evs, w') \<Rightarrow> (Inr v, evs, w')
      | (Raise e, evs, w') \<Rightarrow> (Inl e, evs, w')
      | (Continue, evs, w') \<Rightarrow>
          (case run_attempts tr n rest w' of
             (r, evs', w'') \<Rightarrow> (r, evs @ evs', w'')))"

text \<open>
  \<^verbatim>\<open>run\<close>. With \<^verbatim>\<open>n_repeats=None\<close> (the annotation is \<^verbatim>\<open>Optional[int]\<close>) the
  expression \<^verbatim>\<open>self.n_repeats + 1\<close> raises TypeError before the loop.
\<close>

definition run :: "'w TestResults \<Rightarrow> 'w \<Rightarrow> (run_error + pyval) \<times> event list \<times> 'w" where
  "run tr w =
     (case n_repeats tr of
        None \<Rightarrow>
          (Inl (Other (PyExc OtherException ''TypeError''
                  (''unsupported operand type(s) for +: '' @ quoted ''NoneType'' @ '' and ''
                     @ quoted ''int''))), [], w)
      | Some n \<Rightarrow> run_attempts tr n [1..n] w)"

section \<open>\<^verbatim>\<open>test/python/runtime.py\<close>\<close>

record ('f, 'g) AlgorithmTest =
  name :: string
  func :: 'f
  generator :: 'g
  n_repeats_at :: int    \<comment> \<open>the dataclass field \<^verbatim>\<open>n_repeats: int = 100\<close>\<close>

text \<open>\<^verbatim>\<open>AlgorithmTest(name=..., func=..., generator=...)\<close> with \<^verbatim>\<open>n_repeats\<close> optional.\<close>

definition AlgorithmTest_init ::
  "string \<Rightarrow> 'f \<Rightarrow> 'g \<Rightarrow> int arg \<Rightarrow> ('f, 'g) AlgorithmTest" where
  "AlgorithmTest_init nm f g nr =
     \<lparr> name = nm, func = f, generator = g,
       n_repeats_at = (case nr of Omitted \<Rightarrow> 100 | Given v \<Rightarrow> v) \<rparr>"

text \<open>
  The external \<^verbatim>\<open>big_o.big_o\<close> is a parameter of the model: it is called with the
  arguments below and either raises or returns \<^verbatim>\<open>(best, others)\<close>, \<^verbatim>\<open>others\<close> being a
  dict from fitted class to residual, here in its iteration order.
\<close>

record ('f, 'g) big_o_call =
  bo_func :: 'f
  bo_generator :: 'g
  min_n :: int
  max_n :: int
  n_measures :: int
  bo_n_repeats :: int
  n_timings :: int

type_synonym ('f, 'g, 'x) big_o =
  "('f, 'g) big_o_call \<Rightarrow> 'x \<Rightarrow> (pyexc + complexity \<times> (complexity \<times> real) list) \<times> 'x"

text \<open>
  The world \<^verbatim>\<open>test_algorithm\<close> acts on: the records handed to the logger of
  \<^verbatim>\<open>runtime.py\<close>, the calls made to \<^verbatim>\<open>big_o.big_o\<close> so far, and whatever state the
  library and the timed function have.
\<close>

record ('f, 'g, 'x) rt_world =
  rt_log :: "event list"
  calls :: "('f, 'g) big_o_call list"
  ext :: 'x

definition big_o_args :: "('f, 'g) AlgorithmTest \<Rightarrow> ('f, 'g) big_o_call" where
  "big_o_args t =
     \<lparr> bo_func = func t, bo_generator = generator t,
       min_n = 100, max_n = 10000, n_measures = 10,
       bo_n_repeats = n_repeats_at t, n_timings = 5 \<rparr>"

text \<open>
  \<^verbatim>\<open>{str(cls): float(residuals) for cls, residuals in others.items()}\<close>: a key
  met again keeps its place and takes the new value.
\<close>

definition other_fits :: "(complexity \<times> real) list \<Rightarrow> (pyval \<times> pyval) list" where
  "other_fits others =
     fold (\<lambda>(cls, residuals). AList.update (PStr (str_of cls)) (PFloat residuals))
       others []"

fun str_exc :: "pyexc \<Rightarrow> string" where
  "str_exc (PyExc k c m) = m"

text \<open>
  \<^verbatim>\<open>test_algorithm\<close>: the \<^verbatim>\<open>except Exception as e\<close> clause logs and re-raises with a
  bare \<^verbatim>\<open>raise\<close>; an exception outside \<^verbatim>\<open>Exception\<close> passes through unlogged.
\<close>

definition test_algorithm ::
  "('f, 'g, 'x) big_o \<Rightarrow> ('f, 'g) AlgorithmTest \<Rightarrow> ('f, 'g, 'x) rt_world
     \<Rightarrow> outcome \<times> ('f, 'g, 'x) rt_world" where
  "test_algorithm big_o t w =
     (case big_o (big_o_args t) (ext w) of
        (Inr (best, others), x') \<Rightarrow>
          (let results =
                 PDict [(PStr (name t),
                         PDict [(PStr ''best_fit'', PStr (str_of best)),
                                (PStr ''other_fits'', PDict (other_fits others))])];
               logged =
                 [Log INFO (CHR 0x0A # ''=== %s ==='') [Val (PStr (name t))],
                  Log INFO ''Best fit: %s'' [Fit best]]
                 @ map (\<lambda>(cls, residuals).
                          Log INFO ''%s    (res: %.2G)'' [Fit cls, Val (PFloat residuals)])
                     others
           in (Returned results,
               w\<lparr> rt_log := rt_log w @ logged,
                  calls := calls w @ [big_o_args t], ext := x' \<rparr>))
      | (Inl e, x') \<Rightarrow>
          (case e of
             PyExc NonException c m \<Rightarrow>
               (Raised e, w\<lparr> calls := calls w @ [big_o_args t], ext := x' \<rparr>)
           | _ \<Rightarrow>
               (Raised e,
                w\<lparr> rt_log := rt_log w @
                      [Log ERROR ''Error testing algorithm %s: %s''
                         [Val (PStr (name t)), Val (PStr (str_exc e))]],
                   calls := calls w @ [big_o_args t], ext := x' \<rparr>)))"

text \<open>
  \<^verbatim>\<open>main\<close> wraps each test case as \<^verbatim>\<open>TestResults(lambda: test_algorithm(test))\<close>. The
  body of \<^verbatim>\<open>test_algorithm\<close> has no \<^verbatim>\<open>await\<close>: once started it runs to its end without
  giving control back to the event loop, so what the awaited call does is what
  \<^verbatim>\<open>test_algorithm\<close> does, whatever the timeout.
\<close>

definition lambda_test_algorithm ::
  "('f, 'g, 'x) big_o \<Rightarrow> ('f, 'g) AlgorithmTest \<Rightarrow> ('f, 'g, 'x) rt_world callable" where
  "lambda_test_algorithm big_o t =
     \<lparr> class_name = ''function'', dunder_name = Some ''<lambda>'',
       awaited = (\<lambda>timeout. test_algorithm big_o t) \<rparr>"

definition main_test_runner ::
  "('f, 'g, 'x) big_o \<Rightarrow> ('f, 'g) AlgorithmTest
     \<Rightarrow> pyexc + ('f, 'g, 'x) rt_world TestResults" where
  "main_test_runner big_o t = TestResults_init (lambda_test_algorithm big_o t) Omitted"

section \<open>The measurements behind \<^verbatim>\<open>big_o.big_o\<close>\<close>







section \<open>Auxiliary notions for stating the properties\<close>

text \<open>The outcomes of \<open>k\<close> successive attempts as \<^verbatim>\<open>run\<close> makes them, from world \<open>w\<close>.\<close>

fun outcomes :: "'w callable \<Rightarrow> nat \<Rightarrow> 'w \<Rightarrow> outcome list" where
  "outcomes c 0 w = []"
| "outcomes c (Suc k) w = (case awaited c 10 w of (out, w') \<Rightarrow> out # outcomes c k w')"

text \<open>An attempt fails when it raises an error, times out when that error is the timeout.\<close>

fun failure :: "outcome \<Rightarrow> bool" where
  "failure (Raised (PyExc k c m)) = (k \<noteq> NonException)"
| "failure (Returned v) = False"

fun timed_out :: "outcome \<Rightarrow> bool" where
  "timed_out (Raised (PyExc k c m)) = (k = AsyncioTimeout)"
| "timed_out (Returned v) = False"

fun failed_generically :: "outcome \<Rightarrow> bool" where
  "failed_generically (Raised (PyExc k c m)) = (k = OtherException)"
| "failed_generically (Returned v) = False"

text \<open>
  A callable for concrete runs: its world is the list of outcomes still to come, one per
  call; when the list is used up it hangs until the deadline.
\<close>

definition scripted :: "string option \<Rightarrow> outcome list callable" where
  "scripted nm =
     \<lparr> class_name = (case nm of None \<Rightarrow> ''functools.partial'' | Some _ \<Rightarrow> ''function''),
       dunder_name = nm,
       awaited = (\<lambda>timeout w. case w of
                     [] \<Rightarrow> (Raised (PyExc AsyncioTimeout ''TimeoutError'' []), [])
                   | out # rest \<Rightarrow> (out, rest)) \<rparr>"

text \<open>
  A callable that needs \<open>d\<close> seconds to return \<open>v\<close>, awaited with an exact deadline: it
  returns only when it is done before the deadline.
\<close>

definition taking :: "real \<Rightarrow> pyval \<Rightarrow> unit callable" where
  "taking d v =
     \<lparr> class_name = ''function'', dunder_name = Some ''taking'',
       awaited = (\<lambda>timeout w. if d < timeout then (Returned v, w)
                               else (Raised (PyExc AsyncioTimeout ''TimeoutError'' []), w)) \<rparr>"


text \<open>
  The test cases of \<^verbatim>\<open>main\<close>: the timed functions are named, not run (timing them is
  the library's business), and both generators are \<^verbatim>\<open>lambda n: n\<close>.
\<close>

datatype wrapper = remove_duplicates_wrapper | binary_search_wrapper

datatype size_generator = lambda_n_n

definition test_cases :: "(wrapper, size_generator) AlgorithmTest list" where
  "test_cases =
     [AlgorithmTest_init ''Remove Duplicates (Front)'' remove_duplicates_wrapper lambda_n_n
        Omitted,
      AlgorithmTest_init ''Binary Search'' binary_search_wrapper lambda_n_n Omitted]"

text \<open>Two behaviours of \<^verbatim>\<open>big_o.big_o\<close> for concrete runs: a fixed answer, a fixed error.\<close>

definition big_o_returning ::
  "complexity \<Rightarrow> (complexity \<times> real) list \<Rightarrow> (wrapper, size_generator, unit) big_o" where
  "big_o_returning best others = (\<lambda>args x. (Inr (best, others), x))"

definition big_o_raising :: "pyexc \<Rightarrow> (wrapper, size_generator, unit) big_o" where
  "big_o_raising e = (\<lambda>args x. (Inl e, x))"

text \<open>The residuals of a dict of fits, in its order.\<close>

fun residual :: "pyval \<Rightarrow> real" where
  "residual (PFloat r) = r"
| "residual _ = 0"

definition residuals :: "(pyval \<times> pyval) list \<Rightarrow> real list" where
  "residuals fits = map (\<lambda>(k, v). residual v) fits"

text \<open>
  The records \<^verbatim>\<open>_log_test_results\<close> writes for the parts of a dict result, told by
  their level and format alone (used for counting invocations).
\<close>

fun detail_line :: "event \<Rightarrow> bool" where
  "detail_line (Log l f as) = (l = INFO \<and> (f = ''Subtest: %s'' \<or> f = ''  %s: %s''))"
| "detail_line Invoked = False"


text \<open>
  The records written once per attempt; each takes the name of the test as its first
  argument.
\<close>

fun attempt_line :: "string \<Rightarrow> event \<Rightarrow> bool" where
  "attempt_line nm (Log l f as) =
     (f \<in> set [''Test %s timed out (Attempt %s/%s)'',
               ''Test %s failed (Attempt %s/%s): %s'',
               ''Test %s (Attempt %s) - Successful'']
      \<and> (case as of Val (PStr nm') # rest \<Rightarrow> nm' = nm | _ \<Rightarrow> False))"
| "attempt_line nm Invoked = False"


text \<open>\<^verbatim>\<open>e.args\<close> of what \<^verbatim>\<open>run\<close> raises.\<close>

fun error_args :: "run_error \<Rightarrow> pyval list" where
  "error_args (TestError args) = args"
| "error_args (TestTimeoutError args) = args"
| "error_args (Other (PyExc k c m)) = [PStr m]"

text \<open>
  The results \<^verbatim>\<open>_log_test_results\<close> gets through without raising: anything that is not
  a dict, and a dict all of whose values are dicts with string keys.
\<close>

fun is_str :: "pyval \<Rightarrow> bool" where
  "is_str (PStr s) = True"
| "is_str _ = False"

fun is_dict_with_str_keys :: "pyval \<Rightarrow> bool" where
  "is_dict_with_str_keys (PDict items) = list_all (\<lambda>(key, v). is_str key) items"
| "is_dict_with_str_keys _ = False"

fun loggable :: "pyval \<Rightarrow> bool" where
  "loggable (PDict items) = list_all (\<lambda>(subtest, result). is_dict_with_str_keys result) items"
| "loggable _ = True"

text \<open>
  What the records for the parts of a dict result can hold: for each subtest its key, and
  for each entry with a string key of a subtest that is a dict, the key (capitalized) and
  the value.
\<close>

fun item_records :: "(pyval \<times> pyval) list \<Rightarrow> event list" where
  "item_records [] = []"
| "item_records ((key, v) # rest) =
     (case key of
        PStr k \<Rightarrow> Log INFO ''  %s: %s'' [Capitalized k, Val v] # item_records rest
      | _ \<Rightarrow> item_records rest)"

fun subtest_records :: "(pyval \<times> pyval) list \<Rightarrow> event list" where
  "subtest_records [] = []"
| "subtest_records ((subtest, result) # rest) =
     Log INFO ''Subtest: %s'' [Val subtest]
     # (case result of PDict inner \<Rightarrow> item_records inner | _ \<Rightarrow> [])
     @ subtest_records rest"

fun detail_records :: "pyval \<Rightarrow> event list" where
  "detail_records (PDict items) = subtest_records items"
| "detail_records _ = []"

text \<open>The same for all the results among the outcomes of some attempts.\<close>

fun returned_details :: "outcome list \<Rightarrow> event list" where
  "returned_details [] = []"
| "returned_details (Returned v # outs) = detail_records v @ returned_details outs"
| "returned_details (Raised e # outs) = returned_details outs"




section \<open>Lemmas about the retry loop\<close>

lemma invocations_simps [simp]:
  "invocations [] = 0"
  "invocations (Invoked # evs) = Suc (invocations evs)"
  "invocations (Log l f as # evs) = invocations evs"
  "invocations (evs @ evs') = invocations evs + invocations evs'"
  by (simp_all add: invocations_def)

lemma detail_lines_no_call: "list_all detail_line evs \<Longrightarrow> invocations evs = 0"
proof (induction evs)
  case Nil
  then show ?case by simp
next
  case (Cons ev evs)
  then show ?case by (cases ev) auto
qed

lemma log_items_detail: "log_items items = (r, evs) \<Longrightarrow> list_all detail_line evs"
proof (induction items arbitrary: r evs rule: log_items.induct)
  case 1
  then show ?case by simp
next
  case (2 key v rest)
  show ?case
  proof (cases key)
    case (PStr k)
    obtain r' evs' where rest: "log_items rest = (r', evs')" by (cases "log_items rest")
    with 2 PStr show ?thesis by auto
  qed (use 2 in auto)
qed

lemma log_subtests_detail: "log_subtests items = (r, evs) \<Longrightarrow> list_all detail_line evs"
proof (induction items arbitrary: r evs rule: log_subtests.induct)
  case 1
  then show ?case by simp
next
  case (2 subtest result rest)
  show ?case
  proof (cases result)
    case (PDict items)
    obtain ri ei where it: "log_items items = (ri, ei)" by (cases "log_items items")
    obtain rr er where rest: "log_subtests rest = (rr, er)" by (cases "log_subtests rest")
    from it have d: "list_all detail_line ei" by (rule log_items_detail)
    show ?thesis
    proof (cases ri)
      case (Inl e)
      with 2 PDict it d show ?thesis by auto
    next
      case (Inr u)
      with 2 PDict it d rest show ?thesis by auto
    qed
  qed (use 2 in auto)
qed


lemma log_test_results_events:
  assumes "log_test_results tr v a = (r, evs)"
  shows "\<exists>evs'. evs = Log INFO ''Test %s (Attempt %s) - Successful''
                       [Val (PStr (test_name tr)), Val (PInt a)] # evs'
               \<and> list_all detail_line evs'"
proof (cases v)
  case (PDict items)
  obtain rs es where s: "log_subtests items = (rs, es)" by (cases "log_subtests items")
  from s have "list_all detail_line es" by (rule log_subtests_detail)
  with assms PDict s show ?thesis
    by (cases rs) (auto simp: log_test_results_def)
qed (use assms in \<open>auto simp: log_test_results_def\<close>)

lemma log_test_results_value:
  "log_test_results tr v a = (Inr v', evs) \<Longrightarrow> v' = v"
  by (auto simp: log_test_results_def Let_def split: pyval.splits prod.splits sum.splits)


lemma log_items_kind:
  "log_items items = (Inl e, evs) \<Longrightarrow> \<exists>c m. e = PyExc OtherException c m"
proof (induction items arbitrary: evs rule: log_items.induct)
  case 1
  then show ?case by simp
next
  case (2 key v rest)
  show ?case
  proof (cases key)
    case (PStr k)
    obtain r' evs' where rest: "log_items rest = (r', evs')" by (cases "log_items rest")
    with 2 PStr show ?thesis by auto
  qed (use 2 in \<open>auto simp: attribute_error_def\<close>)
qed

lemma log_subtests_kind:
  "log_subtests items = (Inl e, evs) \<Longrightarrow> \<exists>c m. e = PyExc OtherException c m"
proof (induction items arbitrary: evs rule: log_subtests.induct)
  case 1
  then show ?case by simp
next
  case (2 subtest result rest)
  show ?case
  proof (cases result)
    case (PDict items)
    obtain ri ei where it: "log_items items = (ri, ei)" by (cases "log_items items")
    obtain rr er where rest: "log_subtests rest = (rr, er)" by (cases "log_subtests rest")
    show ?thesis
    proof (cases ri)
      case (Inl e')
      with 2 PDict it log_items_kind[of items e' ei] show ?thesis by auto
    next
      case (Inr u)
      with 2 PDict it rest show ?thesis by auto
    qed
  qed (use 2 in \<open>auto simp: attribute_error_def\<close>)
qed

lemma log_test_results_kind:
  assumes "log_test_results tr v a = (Inl e, evs)"
  shows "\<exists>c m. e = PyExc OtherException c m"
proof (cases v)
  case (PDict items)
  obtain rs es where s: "log_subtests items = (rs, es)" by (cases "log_subtests items")
  with assms PDict show ?thesis
    using log_subtests_kind[of items _ es]
    by (cases rs) (auto simp: log_test_results_def)
qed (use assms in \<open>auto simp: log_test_results_def\<close>)

lemma except_clauses_events:
  assumes "except_clauses tr n a e = (st, evs)"
  shows "list_all (attempt_line (test_name tr)) evs" and "\<forall>v. st \<noteq> Return v"
    and "st = Continue \<longrightarrow> a \<noteq> n"
  using assms by (cases e; cases "case e of PyExc k c m \<Rightarrow> k"; auto split: if_splits)+

lemma attempt_body_cases:
  assumes "attempt_body tr n a w = (st, evs, w')"
  obtains (returned) v evs' where "awaited (test tr) 10 w = (Returned v, w')"
      and "log_test_results tr v a = (Inr v, evs')" and "st = Return v" and "evs = Invoked # evs'"
  | (unloggable) v e evs1 evs2 where "awaited (test tr) 10 w = (Returned v, w')"
      and "log_test_results tr v a = (Inl e, evs1)"
      and "except_clauses tr n a e = (st, evs2)" and "evs = Invoked # evs1 @ evs2"
  | (raised) e evs2 where "awaited (test tr) 10 w = (Raised e, w')"
      and "except_clauses tr n a e = (st, evs2)" and "evs = Invoked # evs2"
proof -
  obtain out w1 where aw: "awaited (test tr) 10 w = (out, w1)"
    by (cases "awaited (test tr) 10 w")
  show ?thesis
  proof (cases out)
    case (Returned v)
    obtain r l where lg: "log_test_results tr v a = (r, l)"
      by (cases "log_test_results tr v a")
    show ?thesis
    proof (cases r)
      case (Inl e)
      obtain st2 evs2 where ex: "except_clauses tr n a e = (st2, evs2)"
        by (cases "except_clauses tr n a e")
      with assms aw Returned lg Inl show ?thesis
        by (intro unloggable[of v e l evs2]) (auto simp: attempt_body_def)
    next
      case (Inr v')
      with lg have "v' = v" by (simp add: log_test_results_value)
      with assms aw Returned lg Inr show ?thesis
        by (intro returned[of v l]) (auto simp: attempt_body_def)
    qed
  next
    case (Raised e)
    obtain st2 evs2 where ex: "except_clauses tr n a e = (st2, evs2)"
      by (cases "except_clauses tr n a e")
    with assms aw Raised show ?thesis
      by (intro raised[of e evs2]) (auto simp: attempt_body_def)
  qed
qed


lemma attempt_line_no_call: "list_all (attempt_line nm) evs \<Longrightarrow> invocations evs = 0"
proof (induction evs)
  case Nil
  then show ?case by simp
next
  case (Cons ev evs)
  then show ?case by (cases ev) auto
qed

lemma attempt_body_invocations:
  assumes "attempt_body tr n a w = (st, evs, w')"
  shows "invocations evs = 1"
  using assms
proof (cases rule: attempt_body_cases)
  case (returned v evs')
  from log_test_results_events[OF returned(2)] detail_lines_no_call
  show ?thesis using returned by auto
next
  case (unloggable v e evs1 evs2)
  from log_test_results_events[OF unloggable(2)] detail_lines_no_call
    except_clauses_events(1)[OF unloggable(3)] attempt_line_no_call
  show ?thesis using unloggable by auto
next
  case (raised e evs2)
  from except_clauses_events(1)[OF raised(2)] attempt_line_no_call
  show ?thesis using raised by auto
qed

lemma run_attempts_invocations_le:
  "run_attempts tr n as w = (r, evs, w') \<Longrightarrow> invocations evs \<le> length as"
proof (induction as arbitrary: w r evs w')
  case Nil
  then show ?case by simp
next
  case (Cons a as)
  obtain st e1 w1 where b: "attempt_body tr n a w = (st, e1, w1)"
    by (cases "attempt_body tr n a w") auto
  from b have l1: "invocations e1 = 1" by (rule attempt_body_invocations)
  show ?case
  proof (cases st)
    case Continue
    obtain r2 e2 w2 where rest: "run_attempts tr n as w1 = (r2, e2, w2)"
      by (cases "run_attempts tr n as w1") auto
    from Cons.IH[OF rest] l1 Cons.prems b Continue rest show ?thesis by auto
  qed (use Cons.prems b l1 in auto)
qed

lemma run_attempts_errors:
  assumes "run_attempts tr n as w = (Inl err, evs, w')"
  shows "err = TestError [PStr ''Unexpected failure in test %s'', PStr (test_name tr)]
       \<or> err = TestTimeoutError [PStr ''Test %s consistently timed out'', PStr (test_name tr)]
       \<or> err = TestError [PStr ''Test %s failed after %s attempts'', PStr (test_name tr), PInt n]
       \<or> (\<exists>c m. err = Other (PyExc NonException c m))"
  using assms
proof (induction as arbitrary: w evs w')
  case Nil
  then show ?case by simp
next
  case (Cons a as)
  obtain st e1 w1 where b: "attempt_body tr n a w = (st, e1, w1)"
    by (cases "attempt_body tr n a w") auto
  show ?case
  proof (cases st)
    case Continue
    obtain r2 e2 w2 where rest: "run_attempts tr n as w1 = (r2, e2, w2)"
      by (cases "run_attempts tr n as w1") auto
    with Cons.prems b Continue have "r2 = Inl err" by auto
    with Cons.IH rest show ?thesis by blast
  next
    case (Return v)
    with Cons.prems b show ?thesis by auto
  next
    case (Raise e)
    with Cons.prems b have e: "e = err" by auto
    have "\<And>x s l. except_clauses tr n a x = (Raise err, l) \<Longrightarrow> ?thesis"
      subgoal for x s l by (cases x; cases "case x of PyExc k c m \<Rightarrow> k"; auto split: if_splits)
      done
    with b Raise e show ?thesis
      by (cases rule: attempt_body_cases) auto
  qed
qed


lemma length_outcomes [simp]: "length (outcomes c k w) = k"
  by (induction k arbitrary: w) (auto split: prod.splits)

lemma attempt_body_failure:
  assumes "awaited (test tr) 10 w = (out, w1)" and "failure out"
  shows "\<exists>lv f args. attempt_body tr n a w =
           (if a \<noteq> n then Continue
            else if timed_out out
            then Raise (TestTimeoutError
                          [PStr ''Test %s consistently timed out'', PStr (test_name tr)])
            else Raise (TestError
                          [PStr ''Test %s failed after %s attempts'', PStr (test_name tr),
                           PInt n]),
            [Invoked, Log lv f args], w1)"
proof -
  from assms(2) obtain k c m where out: "out = Raised (PyExc k c m)" and k: "k \<noteq> NonException"
    by (cases out rule: failure.cases) auto
  with assms(1) show ?thesis
    by (cases k) (auto simp: attempt_body_def)
qed

lemma run_attempts_all_fail:
  assumes "as \<noteq> []" and "last as = n" and "n \<notin> set (butlast as)"
    and "list_all failure (outcomes (test tr) (length as) w)"
  shows "\<exists>evs w'. run_attempts tr n as w =
           (Inl (if timed_out (last (outcomes (test tr) (length as) w))
                 then TestTimeoutError
                        [PStr ''Test %s consistently timed out'', PStr (test_name tr)]
                 else TestError
                        [PStr ''Test %s failed after %s attempts'', PStr (test_name tr),
                         PInt n]), evs, w')
         \<and> invocations evs = length as"
  using assms
proof (induction as arbitrary: w)
  case Nil
  then show ?case by simp
next
  case (Cons a as)
  obtain out w1 where aw: "awaited (test tr) 10 w = (out, w1)"
    by (cases "awaited (test tr) 10 w")
  with Cons.prems(4) have f: "failure out"
    and rest: "list_all failure (outcomes (test tr) (length as) w1)" by auto
  from attempt_body_failure[OF aw f, of n a] obtain lv fm args where
    b: "attempt_body tr n a w =
           (if a \<noteq> n then Continue
            else if timed_out out
            then Raise (TestTimeoutError
                          [PStr ''Test %s consistently timed out'', PStr (test_name tr)])
            else Raise (TestError
                          [PStr ''Test %s failed after %s attempts'', PStr (test_name tr),
                           PInt n]),
            [Invoked, Log lv fm args], w1)" by blast
  show ?case
  proof (cases "as = []")
    case True
    with Cons.prems(2) have "a = n" by simp
    with b aw True show ?thesis by auto
  next
    case False
    with Cons.prems have an: "a \<noteq> n" and la: "last as = n" and nb: "n \<notin> set (butlast as)"
      by auto
    from Cons.IH[OF False la nb rest] obtain evs w' where
      r: "run_attempts tr n as w1 =
           (Inl (if timed_out (last (outcomes (test tr) (length as) w1))
                 then TestTimeoutError
                        [PStr ''Test %s consistently timed out'', PStr (test_name tr)]
                 else TestError
                        [PStr ''Test %s failed after %s attempts'', PStr (test_name tr),
                         PInt n]), evs, w')"
      and i: "invocations evs = length as" by blast
    from False have ne: "outcomes (test tr) (length as) w1 \<noteq> []"
      by (metis length_outcomes length_0_conv)
    have lst: "last (outcomes (test tr) (length (a # as)) w)
             = last (outcomes (test tr) (length as) w1)"
      using aw ne by simp
    show ?thesis
      unfolding lst using b an r i by auto
  qed
qed

lemma run_attempts_returned:
  assumes "run_attempts tr n as w = (Inr v, evs, w')"
  shows "\<exists>j<length as. invocations evs = Suc j
           \<and> outcomes (test tr) (Suc j) w ! j = Returned v
           \<and> Log INFO ''Test %s (Attempt %s) - Successful''
                [Val (PStr (test_name tr)), Val (PInt (as ! j))] \<in> set evs"
  using assms
proof (induction as arbitrary: w evs w')
  case Nil
  then show ?case by simp
next
  case (Cons a as)
  obtain st e1 w1 where b: "attempt_body tr n a w = (st, e1, w1)"
    by (cases "attempt_body tr n a w") auto
  from b have i1: "invocations e1 = 1" by (rule attempt_body_invocations)
  show ?case
  proof (cases st)
    case (Return v')
    with Cons.prems b have v: "v' = v" and e: "e1 = evs" by auto
    from b Return v e show ?thesis
    proof (cases rule: attempt_body_cases)
      case (returned v2 evs')
      from log_test_results_events[OF returned(2)] returned i1 e Return v
      show ?thesis by (intro exI[of _ 0]) auto
    next
      case (unloggable v e evs1 evs2)
      with except_clauses_events(2)[OF unloggable(3)] Return show ?thesis by auto
    next
      case (raised e evs2)
      with except_clauses_events(2)[OF raised(2)] Return show ?thesis by auto
    qed
  next
    case (Raise e)
    with Cons.prems b show ?thesis by auto
  next
    case Continue
    obtain r2 e2 w2 where rest: "run_attempts tr n as w1 = (r2, e2, w2)"
      by (cases "run_attempts tr n as w1") auto
    with Cons.prems b Continue have r2: "r2 = Inr v" and evs: "evs = e1 @ e2" by auto
    from Cons.IH[OF rest[unfolded r2]] obtain j where j: "j < length as"
      and ij: "invocations e2 = Suc j"
      and oj: "outcomes (test tr) (Suc j) w1 ! j = Returned v"
      and lj: "Log INFO ''Test %s (Attempt %s) - Successful''
                [Val (PStr (test_name tr)), Val (PInt (as ! j))] \<in> set e2" by blast
    have w1: "snd (awaited (test tr) 10 w) = w1"
      using b by (cases rule: attempt_body_cases) auto
    then have "outcomes (test tr) (Suc (Suc j)) w ! Suc j = Returned v"
      using oj by (cases "awaited (test tr) 10 w") auto
    with j ij lj evs i1 show ?thesis
      by (intro exI[of _ "Suc j"]) auto
  qed
qed


lemma upto_last_facts:
  assumes "(1::int) \<le> n"
  shows "[1..n] \<noteq> []" and "last [1..n] = n" and "n \<notin> set (butlast [1..n])"
    and "length [1..n] = nat n"
  using assms by (simp_all add: upto_rec2)

lemma run_all_fail:
  assumes "n_repeats tr = Some n" and "1 \<le> n"
    and "list_all failure (outcomes (test tr) (nat n) w)"
  shows "\<exists>evs w'. run tr w =
           (Inl (if timed_out (last (outcomes (test tr) (nat n) w))
                 then TestTimeoutError
                        [PStr ''Test %s consistently timed out'', PStr (test_name tr)]
                 else TestError
                        [PStr ''Test %s failed after %s attempts'', PStr (test_name tr),
                         PInt n]), evs, w')
         \<and> invocations evs = nat n"
proof -
  note u = upto_last_facts[OF assms(2)]
  from assms(3) have "list_all failure (outcomes (test tr) (length [1..n]) w)"
    by (simp only: u(4))
  from run_attempts_all_fail[OF u(1) u(2) u(3) this]
  show ?thesis using assms(1) by (simp add: run_def u(4))
qed

lemma run_attempts_invoke_first:
  assumes "run_attempts tr n as w = (r, evs, w')" and "as \<noteq> []"
  shows "1 \<le> invocations evs"
proof -
  from assms(2) obtain a rest where as: "as = a # rest" by (cases as) auto
  obtain st e1 w1 where b: "attempt_body tr n a w = (st, e1, w1)"
    by (cases "attempt_body tr n a w") auto
  from b have i1: "invocations e1 = 1" by (rule attempt_body_invocations)
  show ?thesis
  proof (cases st)
    case Continue
    obtain r2 e2 w2 where rest: "run_attempts tr n rest w1 = (r2, e2, w2)"
      by (cases "run_attempts tr n rest w1") auto
    with assms(1) as b Continue i1 show ?thesis by auto
  qed (use assms(1) as b i1 in auto)
qed

lemma run_error_names:
  assumes "run tr w = (Inl err, evs, w')"
    and "err = TestError args \<or> err = TestTimeoutError args"
  shows "2 \<le> length args \<and> args ! 1 = PStr (test_name tr)"
proof (cases "n_repeats tr")
  case None
  with assms show ?thesis by (auto simp: run_def)
next
  case (Some n)
  with assms(1) have "run_attempts tr n [1..n] w = (Inl err, evs, w')" by (simp add: run_def)
  from run_attempts_errors[OF this] assms(2) show ?thesis by auto
qed

lemma except_clauses_same_name:
  "test_name tr1 = test_name tr2 \<Longrightarrow> except_clauses tr1 n a e = except_clauses tr2 n a e"
  by (cases e; cases "case e of PyExc k c m \<Rightarrow> k") auto

lemma attempt_body_same_await:
  assumes "test_name tr1 = test_name tr2"
    and "awaited (test tr1) 10 = awaited (test tr2) 10"
  shows "attempt_body tr1 n a w = attempt_body tr2 n a w"
proof -
  have l: "log_test_results tr1 = log_test_results tr2"
    by (simp add: fun_eq_iff log_test_results_def assms(1))
  have e: "except_clauses tr1 = except_clauses tr2"
    by (simp add: fun_eq_iff except_clauses_same_name[OF assms(1)])
  show ?thesis unfolding attempt_body_def l e assms(2) ..
qed

lemma run_attempts_same_await:
  assumes "test_name tr1 = test_name tr2"
    and "awaited (test tr1) 10 = awaited (test tr2) 10"
  shows "run_attempts tr1 n as w = run_attempts tr2 n as w"
proof (induction as arbitrary: w)
  case Nil
  show ?case by (simp add: assms(1))
next
  case (Cons a as)
  have r: "run_attempts tr1 n as = run_attempts tr2 n as"
    using Cons.IH by (simp add: fun_eq_iff)
  show ?case
    unfolding run_attempts.simps attempt_body_same_await[OF assms] r ..
qed

lemma test_algorithm_calls:
  "calls (snd (test_algorithm big_o t w)) = calls w @ [big_o_args t]"
  by (auto simp: test_algorithm_def Let_def
      split: prod.splits sum.splits pyexc.splits exc_kind.splits)

lemma test_algorithm_raises:
  "big_o (big_o_args t) (ext w) = (Inl e, x') \<Longrightarrow> fst (test_algorithm big_o t w) = Raised e"
  by (auto simp: test_algorithm_def split: pyexc.splits exc_kind.splits)

lemma attempt_body_world:
  "attempt_body tr n a w = (st, evs, w') \<Longrightarrow> w' = snd (awaited (test tr) 10 w)"
  by (erule attempt_body_cases) auto

lemma run_attempts_calls:
  assumes "test tr = lambda_test_algorithm big_o t"
    and "run_attempts tr n as w = (r, evs, w')"
  shows "calls w' = calls w @ replicate (invocations evs) (big_o_args t)"
  using assms(2)
proof (induction as arbitrary: w r evs w')
  case Nil
  then show ?case by simp
next
  case (Cons a as)
  obtain st e1 w1 where b: "attempt_body tr n a w = (st, e1, w1)"
    by (cases "attempt_body tr n a w") auto
  from b have i1: "invocations e1 = 1" by (rule attempt_body_invocations)
  from attempt_body_world[OF b] assms(1)
  have c1: "calls w1 = calls w @ [big_o_args t]"
    by (simp add: lambda_test_algorithm_def test_algorithm_calls)
  show ?case
  proof (cases st)
    case Continue
    obtain r2 e2 w2 where rest: "run_attempts tr n as w1 = (r2, e2, w2)"
      by (cases "run_attempts tr n as w1") auto
    from Cons.IH[OF rest] c1 i1 Cons.prems b Continue rest show ?thesis
      by (auto simp: replicate_append_same)
  qed (use Cons.prems b i1 c1 in auto)
qed

lemma update_fresh_key:
  "k \<notin> fst ` set al \<Longrightarrow> AList.update k v al = al @ [(k, v)]"
  by (induction al) auto

lemma fold_update_fresh_keys:
  assumes "distinct (map (\<lambda>(c, r). str_of c) others)"
    and "\<forall>(c, r) \<in> set others. PStr (str_of c) \<notin> fst ` set acc"
  shows "fold (\<lambda>(cls, residuals). AList.update (PStr (str_of cls)) (PFloat residuals))
           others acc
         = acc @ map (\<lambda>(c, r). (PStr (str_of c), PFloat r)) others"
  using assms
proof (induction others arbitrary: acc)
  case Nil
  then show ?case by simp
next
  case (Cons p others)
  obtain c r where p: "p = (c, r)" by (cases p)
  from Cons.prems(2) p have fresh: "PStr (str_of c) \<notin> fst ` set acc" by auto
  have d: "distinct (map (\<lambda>(c, r). str_of c) others)" using Cons.prems(1) by simp
  have "\<forall>(c', r') \<in> set others. PStr (str_of c') \<notin> fst ` set (acc @ [(PStr (str_of c), PFloat r)])"
    using Cons.prems p by (auto simp: image_iff) 
  from Cons.IH[OF d this] p fresh show ?case
    by (simp add: update_fresh_key)
qed

lemma other_fits_distinct:
  "distinct (map (\<lambda>(c, r). str_of c) others) \<Longrightarrow>
     other_fits others = map (\<lambda>(c, r). (PStr (str_of c), PFloat r)) others"
  using fold_update_fresh_keys[of others "[]"] by (simp add: other_fits_def)

lemma fold_update_nonempty:
  "acc \<noteq> [] \<Longrightarrow>
   fold (\<lambda>(cls, residuals). AList.update (PStr (str_of cls)) (PFloat residuals)) others acc \<noteq> []"
proof (induction others arbitrary: acc)
  case Nil
  then show ?case by simp
next
  case (Cons p others)
  obtain c r where p: "p = (c, r)" by (cases p)
  have "AList.update (PStr (str_of c)) (PFloat r) acc \<noteq> []"
    using Cons.prems by (cases acc) auto
  from Cons.IH[OF this] p show ?case by simp
qed

lemma other_fits_empty: "other_fits others = [] \<longleftrightarrow> others = []"
proof (cases others)
  case Nil
  then show ?thesis by (simp add: other_fits_def)
next
  case (Cons p rest)
  obtain c r where p: "p = (c, r)" by (cases p)
  have "fold (\<lambda>(cls, residuals). AList.update (PStr (str_of cls)) (PFloat residuals)) rest
          [(PStr (str_of c), PFloat r)] \<noteq> []"
    by (rule fold_update_nonempty) simp
  with Cons p show ?thesis by (simp add: other_fits_def)
qed

lemma log_items_ok:
  "fst (log_items items) = Inr () \<longleftrightarrow> list_all (\<lambda>(key, v). is_str key) items"
proof (induction items rule: log_items.induct)
  case 1
  then show ?case by simp
next
  case (2 key v rest)
  show ?case
  proof (cases key)
    case (PStr k)
    with 2 show ?thesis by (cases "log_items rest") auto
  qed auto
qed

lemma log_subtests_ok:
  "fst (log_subtests items) = Inr ()
     \<longleftrightarrow> list_all (\<lambda>(subtest, result). is_dict_with_str_keys result) items"
proof (induction items rule: log_subtests.induct)
  case 1
  then show ?case by simp
next
  case (2 subtest result rest)
  show ?case
  proof (cases result)
    case (PDict inner)
    obtain ri ei where it: "log_items inner = (ri, ei)" by (cases "log_items inner")
    obtain rr er where rest: "log_subtests rest = (rr, er)" by (cases "log_subtests rest")
    show ?thesis
    proof (cases ri)
      case (Inl e)
      with it log_items_ok[of inner] PDict show ?thesis by auto
    next
      case (Inr u)
      with it log_items_ok[of inner] PDict rest 2 show ?thesis by auto
    qed
  qed auto
qed

lemma log_test_results_ok:
  "fst (log_test_results tr v a) = Inr v \<longleftrightarrow> loggable v"
proof (cases v)
  case (PDict items)
  obtain rs es where s: "log_subtests items = (rs, es)" by (cases "log_subtests items")
  with log_subtests_ok[of items] PDict show ?thesis
    by (cases rs) (auto simp: log_test_results_def)
qed (auto simp: log_test_results_def)

lemma attempt_body_returned:
  assumes "awaited (test tr) 10 w = (Returned v, w1)" and "loggable v"
  shows "\<exists>evs. attempt_body tr n a w = (Return v, evs, w1) \<and> invocations evs = 1"
proof -
  obtain r l where lg: "log_test_results tr v a = (r, l)"
    by (cases "log_test_results tr v a")
  with assms(2) log_test_results_ok[of tr v a] have r: "r = Inr v" by simp
  with assms(1) lg have b: "attempt_body tr n a w = (Return v, Invoked # l, w1)"
    by (simp add: attempt_body_def)
  from attempt_body_invocations[OF b] b show ?thesis by blast
qed

lemma run_attempts_first_success:
  assumes "j < length as" and "n \<notin> set (take j as)"
    and "list_all failure (take j (outcomes (test tr) (Suc j) w))"
    and "outcomes (test tr) (Suc j) w ! j = Returned v" and "loggable v"
  shows "\<exists>evs w'. run_attempts tr n as w = (Inr v, evs, w') \<and> invocations evs = Suc j"
  using assms(1-4)
proof (induction j arbitrary: as w)
  case 0
  then obtain a rest where as: "as = a # rest" by (cases as) auto
  obtain out w1 where aw: "awaited (test tr) 10 w = (out, w1)"
    by (cases "awaited (test tr) 10 w")
  with 0(4) have "out = Returned v" by simp
  with aw attempt_body_returned[OF _ assms(5), of tr w w1 n a] as show ?case by auto
next
  case (Suc j)
  then obtain a rest where as: "as = a # rest" by (cases as) auto
  obtain out w1 where aw: "awaited (test tr) 10 w = (out, w1)"
    by (cases "awaited (test tr) 10 w")
  from Suc.prems(3) aw have f: "failure out"
    and fr: "list_all failure (take j (outcomes (test tr) (Suc j) w1))" by auto
  from Suc.prems(4) aw have o: "outcomes (test tr) (Suc j) w1 ! j = Returned v" by simp
  from Suc.prems(1,2) as have j: "j < length rest" and an: "a \<noteq> n"
    and nr: "n \<notin> set (take j rest)" by auto
  from attempt_body_failure[OF aw f, of n a] an obtain lv fm args where
    b: "attempt_body tr n a w = (Continue, [Invoked, Log lv fm args], w1)" by auto
  from Suc.IH[OF j nr fr o] obtain evs w' where
    r: "run_attempts tr n rest w1 = (Inr v, evs, w')" and i: "invocations evs = Suc j" by blast
  from as b r i show ?case by simp
qed

lemma run_first_success:
  assumes "n_repeats tr = Some n" and "int (Suc j) \<le> n"
    and "list_all failure (take j (outcomes (test tr) (Suc j) w))"
    and "outcomes (test tr) (Suc j) w ! j = Returned v" and "loggable v"
  shows "\<exists>evs w'. run tr w = (Inr v, evs, w') \<and> invocations evs = Suc j"
proof -
  from assms(2) have l: "j < length [1..n]" by simp
  have nn: "n \<notin> set (take j [1..n])"
  proof
    assume "n \<in> set (take j [1..n])"
    then obtain i where i: "i < length (take j [1..n])" and e: "take j [1..n] ! i = n"
      by (auto simp: in_set_conv_nth)
    from i have ij: "i < j" and "1 + int i \<le> n" by auto
    then have "[1..n] ! i = 1 + int i" by (simp add: nth_upto)
    with e ij have "n = 1 + int i" by simp
    with ij assms(2) show False by simp
  qed
  from run_attempts_first_success[OF l nn assms(3,4,5)] assms(1) show ?thesis
    by (simp add: run_def)
qed

lemma upto_take_notin:
  assumes "int (Suc k) \<le> n"
  shows "n \<notin> set (take k [1..n])"
proof
  assume "n \<in> set (take k [1..n])"
  then obtain i where i: "i < length (take k [1..n])" and e: "take k [1..n] ! i = n"
    by (auto simp: in_set_conv_nth)
  from i have ik: "i < k" and "1 + int i \<le> n" by auto
  then have "[1..n] ! i = 1 + int i" by (simp add: nth_upto)
  with e ik have "n = 1 + int i" by simp
  with ik assms show False by simp
qed

lemma run_attempts_failures_retried:
  assumes "k < length as" and "n \<notin> set (take k as)"
    and "list_all failure (outcomes (test tr) k w)"
  shows "Suc k \<le> invocations (fst (snd (run_attempts tr n as w)))"
  using assms
proof (induction k arbitrary: as w)
  case 0
  then have ne: "as \<noteq> []" by auto
  obtain r evs w' where r: "run_attempts tr n as w = (r, evs, w')"
    by (cases "run_attempts tr n as w")
  from run_attempts_invoke_first[OF r ne] r show ?case by simp
next
  case (Suc k)
  then obtain a rest where as: "as = a # rest" by (cases as) auto
  obtain out w1 where aw: "awaited (test tr) 10 w = (out, w1)"
    by (cases "awaited (test tr) 10 w")
  from Suc.prems(3) aw have f: "failure out"
    and fr: "list_all failure (outcomes (test tr) k w1)" by auto
  from Suc.prems(1,2) as have k: "k < length rest" and an: "a \<noteq> n"
    and nr: "n \<notin> set (take k rest)" by auto
  from attempt_body_failure[OF aw f, of n a] an obtain lv fm args where
    b: "attempt_body tr n a w = (Continue, [Invoked, Log lv fm args], w1)" by auto
  obtain r evs w' where r: "run_attempts tr n rest w1 = (r, evs, w')"
    by (cases "run_attempts tr n rest w1")
  from Suc.IH[OF k nr fr] r have "Suc k \<le> invocations evs" by simp
  with as b r show ?case by simp
qed

lemma run_never_raises_exception_itself:
  assumes "n_repeats tr = Some n"
  shows "fst (run tr w) \<noteq> Inl (Other (PyExc OtherException c m))"
proof
  assume a: "fst (run tr w) = Inl (Other (PyExc OtherException c m))"
  obtain r evs w' where r: "run_attempts tr n [1..n] w = (r, evs, w')"
    by (cases "run_attempts tr n [1..n] w")
  with a assms have "r = Inl (Other (PyExc OtherException c m))" by (simp add: run_def)
  with run_attempts_errors[of tr n "[1..n]" w "Other (PyExc OtherException c m)" evs w'] r
  show False by auto
qed

lemma log_items_records:
  "set (snd (log_items inner)) \<subseteq> set (item_records inner)
   \<and> (fst (log_items inner) = Inr () \<longrightarrow> snd (log_items inner) = item_records inner)"
proof (induction inner rule: log_items.induct)
  case 1
  then show ?case by simp
next
  case (2 key v rest)
  show ?case
  proof (cases key)
    case (PStr k)
    with 2 show ?thesis by (cases "log_items rest") auto
  qed auto
qed

lemma log_subtests_records:
  "set (snd (log_subtests items)) \<subseteq> set (subtest_records items)
   \<and> (fst (log_subtests items) = Inr () \<longrightarrow> snd (log_subtests items) = subtest_records items)"
proof (induction items)
  case Nil
  then show ?case by simp
next
  case (Cons p rest)
  obtain subtest result where p: "p = (subtest, result)" by (cases p)
  obtain rr er where rest: "log_subtests rest = (rr, er)" by (cases "log_subtests rest")
  show ?case
  proof (cases result)
    case (PDict inner)
    obtain ri ei where it: "log_items inner = (ri, ei)" by (cases "log_items inner")
    show ?thesis
    proof (cases ri)
      case (Inl e)
      with it log_items_records[of inner] PDict p show ?thesis by auto
    next
      case (Inr u)
      with it log_items_records[of inner] PDict rest Cons.IH p show ?thesis by auto
    qed
  qed (use p in auto)
qed

lemma log_test_results_records:
  assumes "log_test_results tr v a = (r, evs)"
  shows "\<exists>evs'. evs = Log INFO ''Test %s (Attempt %s) - Successful''
                       [Val (PStr (test_name tr)), Val (PInt a)] # evs'
               \<and> set evs' \<subseteq> set (detail_records v)
               \<and> (r = Inr v \<longrightarrow> evs' = detail_records v)"
proof (cases v)
  case (PDict items)
  obtain rs es where s: "log_subtests items = (rs, es)" by (cases "log_subtests items")
  with assms PDict log_subtests_records[of items] show ?thesis
    by (cases rs) (auto simp: log_test_results_def)
qed (use assms in \<open>auto simp: log_test_results_def\<close>)

lemma set_returned_details_Cons:
  "set (returned_details (out # outs)) = set (returned_details [out]) \<union> set (returned_details outs)"
  by (cases out) auto

lemma attempt_body_records:
  assumes "attempt_body tr n a w = (st, evs, w')"
  shows "list_all (\<lambda>ev. ev = Invoked \<or> attempt_line (test_name tr) ev
                      \<or> ev \<in> set (returned_details [fst (awaited (test tr) 10 w)])) evs"
  using assms
proof (cases rule: attempt_body_cases)
  case (returned v evs')
  from log_test_results_records[OF returned(2)]
  show ?thesis using returned by (auto simp: list_all_iff)
next
  case (unloggable v e evs1 evs2)
  from log_test_results_records[OF unloggable(2)] except_clauses_events(1)[OF unloggable(3)]
  show ?thesis using unloggable by (auto simp: list_all_iff)
next
  case (raised e evs2)
  from except_clauses_events(1)[OF raised(2)]
  show ?thesis using raised by (auto simp: list_all_iff)
qed

lemma run_attempts_records:
  "run_attempts tr n as w = (r, evs, w') \<Longrightarrow>
   list_all (\<lambda>ev. ev = Invoked \<or> attempt_line (test_name tr) ev
                \<or> ev \<in> set (returned_details (outcomes (test tr) (invocations evs) w))) evs"
proof (induction as arbitrary: w r evs w')
  case Nil
  then show ?case by simp
next
  case (Cons a as)
  obtain st e1 w1 where b: "attempt_body tr n a w = (st, e1, w1)"
    by (cases "attempt_body tr n a w") auto
  from b have i1: "invocations e1 = 1" by (rule attempt_body_invocations)
  from attempt_body_world[OF b] have w1: "w1 = snd (awaited (test tr) 10 w)" .
  note l1 = attempt_body_records[OF b]
  have o1: "outcomes (test tr) (Suc k) w
              = fst (awaited (test tr) 10 w) # outcomes (test tr) k w1" for k
    using w1 by (cases "awaited (test tr) 10 w") simp
  show ?case
  proof (cases st)
    case Continue
    obtain r2 e2 w2 where rest: "run_attempts tr n as w1 = (r2, e2, w2)"
      by (cases "run_attempts tr n as w1") auto
    with Cons.prems b Continue have evs: "evs = e1 @ e2" by auto
    have inv: "invocations evs = Suc (invocations e2)" using evs i1 by simp
    have sub1: "set (returned_details [fst (awaited (test tr) 10 w)])
                  \<subseteq> set (returned_details (outcomes (test tr) (invocations evs) w))"
      and sub2: "set (returned_details (outcomes (test tr) (invocations e2) w1))
                  \<subseteq> set (returned_details (outcomes (test tr) (invocations evs) w))"
      unfolding inv o1
      using set_returned_details_Cons[of "fst (awaited (test tr) 10 w)"
          "outcomes (test tr) (invocations e2) w1"] by auto
    from l1 sub1 have p1: "list_all (\<lambda>ev. ev = Invoked \<or> attempt_line (test_name tr) ev
                \<or> ev \<in> set (returned_details (outcomes (test tr) (invocations evs) w))) e1"
      by (auto simp: list_all_iff)
    from Cons.IH[OF rest] sub2
    have p2: "list_all (\<lambda>ev. ev = Invoked \<or> attempt_line (test_name tr) ev
                \<or> ev \<in> set (returned_details (outcomes (test tr) (invocations evs) w))) e2"
      by (auto simp: list_all_iff)
    from p1 p2 show ?thesis by (subst (2) evs) simp
  next
    case (Return v)
    with Cons.prems b have evs: "evs = e1" by auto
    from l1 show ?thesis unfolding evs i1 using o1[of 0] by (simp add: list_all_iff)
  next
    case (Raise e)
    with Cons.prems b have evs: "evs = e1" by auto
    from l1 show ?thesis unfolding evs i1 using o1[of 0] by (simp add: list_all_iff)
  qed
qed

lemma run_attempts_returned_records:
  "run_attempts tr n as w = (Inr v, evs, w') \<Longrightarrow>
   \<exists>pre k. evs = pre @ Log INFO ''Test %s (Attempt %s) - Successful''
                        [Val (PStr (test_name tr)), Val (PInt k)] # detail_records v"
proof (induction as arbitrary: w evs w')
  case Nil
  then show ?case by simp
next
  case (Cons a as)
  obtain st e1 w1 where b: "attempt_body tr n a w = (st, e1, w1)"
    by (cases "attempt_body tr n a w") auto
  show ?case
  proof (cases st)
    case Continue
    obtain r2 e2 w2 where rest: "run_attempts tr n as w1 = (r2, e2, w2)"
      by (cases "run_attempts tr n as w1") auto
    with Cons.prems b Continue have r2: "r2 = Inr v" and evs: "evs = e1 @ e2"
      and "w2 = w'" by auto
    from Cons.IH[OF rest[unfolded r2]] obtain pre k where
      "e2 = pre @ Log INFO ''Test %s (Attempt %s) - Successful''
                        [Val (PStr (test_name tr)), Val (PInt k)] # detail_records v" by blast
    with evs show ?thesis by (intro exI[of _ "e1 @ pre"] exI[of _ k]) simp
  next
    case (Return v')
    with Cons.prems b have v: "v' = v" and e: "e1 = evs" by auto
    from b Return show ?thesis
    proof (cases rule: attempt_body_cases)
      case (returned v2 evs')
      with Return v have v2: "v2 = v" by simp
      from log_test_results_records[OF returned(2)] returned e v2
      show ?thesis by (intro exI[of _ "[Invoked]"] exI[of _ a]) auto
    next
      case (unloggable v e evs1 evs2)
      with except_clauses_events(2)[OF unloggable(3)] Return show ?thesis by auto
    next
      case (raised e evs2)
      with except_clauses_events(2)[OF raised(2)] Return show ?thesis by auto
    qed
  next
    case (Raise e)
    with Cons.prems b show ?thesis by auto
  qed
qed





section \<open>The claims\<close>

subsection \<open>C2: the terminal error after the last attempt\<close>

text \<open>
  C2, as the code has it. When all \<open>n\<close> attempts (\<open>n \<ge> 1\<close>) fail, the kind of the error
  \<^verbatim>\<open>run\<close> raises follows the last attempt: \<^verbatim>\<open>TestTimeoutError\<close> when it timed out,
  \<^verbatim>\<open>TestError\<close> when it failed otherwise. Both carry the name of the test; only
  \<^verbatim>\<open>TestError\<close> carries the attempt count, the arguments of \<^verbatim>\<open>TestTimeoutError\<close> being
  the message and the name alone.
\<close>

theorem exhausted_error_kind_and_args:
  assumes "n_repeats tr = Some n" and "1 \<le> n"
    and "list_all failure (outcomes (test tr) (nat n) w)"
  shows "(timed_out (last (outcomes (test tr) (nat n) w)) \<longrightarrow>
            fst (run tr w) = Inl (TestTimeoutError
               [PStr ''Test %s consistently timed out'', PStr (test_name tr)]))
       \<and> (failed_generically (last (outcomes (test tr) (nat n) w)) \<longrightarrow>
            fst (run tr w) = Inl (TestError
               [PStr ''Test %s failed after %s attempts'', PStr (test_name tr), PInt n]))"
proof -
  have "failed_generically out \<Longrightarrow> \<not> timed_out out" for out
    by (cases out rule: failure.cases) auto
  with run_all_fail[OF assms] show ?thesis by auto
qed

text \<open>
  The theorem at a concrete run: three attempts, two timeouts and then a ValueError.
\<close>

theorem exhausted_error_kind_and_args_witness:
  "n_repeats \<lparr> test = scripted (Some ''work''), test_name = ''work'', n_repeats = Some 3 \<rparr> = Some 3
   \<and> (1::int) \<le> 3
   \<and> list_all failure (outcomes (scripted (Some ''work'')) (nat 3)
         [Raised (PyExc AsyncioTimeout ''TimeoutError'' []),
          Raised (PyExc AsyncioTimeout ''TimeoutError'' []),
          Raised (PyExc OtherException ''ValueError'' ''boom'')])
   \<and> failed_generically (last (outcomes (scripted (Some ''work'')) (nat 3)
         [Raised (PyExc AsyncioTimeout ''TimeoutError'' []),
          Raised (PyExc AsyncioTimeout ''TimeoutError'' []),
          Raised (PyExc OtherException ''ValueError'' ''boom'')]))
   \<and> fst (run \<lparr> test = scripted (Some ''work''), test_name = ''work'', n_repeats = Some 3 \<rparr>
         [Raised (PyExc AsyncioTimeout ''TimeoutError'' []),
          Raised (PyExc AsyncioTimeout ''TimeoutError'' []),
          Raised (PyExc OtherException ''ValueError'' ''boom'')])
     = Inl (TestError [PStr ''Test %s failed after %s attempts'', PStr ''work'', PInt 3])"
proof -
  let ?tr = "\<lparr> test = scripted (Some ''work''), test_name = ''work'', n_repeats = Some 3 \<rparr>"
  let ?w = "[Raised (PyExc AsyncioTimeout ''TimeoutError'' []),
          Raised (PyExc AsyncioTimeout ''TimeoutError'' []),
          Raised (PyExc OtherException ''ValueError'' ''boom'')]"
  have h1: "n_repeats ?tr = Some 3" by simp
  have h2: "(1::int) \<le> 3" by simp
  have o: "outcomes (test ?tr) (nat 3) ?w = ?w"
    by (simp add: scripted_def numeral_3_eq_3)
  have h3: "list_all failure (outcomes (test ?tr) (nat 3) ?w)"
    unfolding o by simp
  have h4: "failed_generically (last (outcomes (test ?tr) (nat 3) ?w))"
    unfolding o by simp
  from exhausted_error_kind_and_args[OF h1 h2 h3] h4
  have "fst (run ?tr ?w) = Inl (TestError [PStr ''Test %s failed after %s attempts'', PStr ''work'', PInt 3])"
    by simp
  with h1 h2 h3 h4 show ?thesis by simp
qed

text \<open>
  C2 as stated asks that the terminal error carry the attempt count. A test that times out
  on all of its three attempts ends in a \<^verbatim>\<open>TestTimeoutError\<close> whose arguments do not
  hold the count 3.
\<close>

theorem timeout_error_lacks_attempt_count:
  "fst (run \<lparr> test = scripted (Some ''work''), test_name = ''work'', n_repeats = Some 3 \<rparr> [])
     = Inl (TestTimeoutError [PStr ''Test %s consistently timed out'', PStr ''work''])
   \<and> PInt 3 \<notin> set (error_args (TestTimeoutError
                        [PStr ''Test %s consistently timed out'', PStr ''work'']))"
  by (simp add: run_def scripted_def attempt_body_def upto_rec1)

subsection \<open>C9: a non-positive retry count\<close>

text \<open>
  C9. For a \<^verbatim>\<open>TestResults\<close> constructed with \<^verbatim>\<open>n_repeats <= 0\<close>, \<^verbatim>\<open>run\<close> raises the
  fallback \<^verbatim>\<open>TestError("Unexpected failure in test %s", name)\<close>; the loop body is never
  entered: no event at all is produced (the test is not invoked, nothing is logged) and the
  world is left as it was.
\<close>

theorem run_nonpositive_n_repeats:
  assumes "TestResults_init c (Given (Some n)) = Inr tr" and "n \<le> 0"
  shows "run tr w =
           (Inl (TestError [PStr ''Unexpected failure in test %s'', PStr (test_name tr)]), [], w)"
proof -
  from assms(1) have "n_repeats tr = Some n"
    by (auto simp: TestResults_init_def split: option.splits)
  with assms(2) show ?thesis by (simp add: run_def)
qed

text \<open>The theorem at \<^verbatim>\<open>n_repeats = 0\<close>, for a test that would have returned \<^verbatim>\<open>None\<close>.\<close>

theorem run_nonpositive_n_repeats_witness:
  "TestResults_init (scripted (Some ''work'')) (Given (Some 0))
     = Inr \<lparr> test = scripted (Some ''work''), test_name = ''work'', n_repeats = Some 0 \<rparr>
   \<and> (0::int) \<le> 0
   \<and> run \<lparr> test = scripted (Some ''work''), test_name = ''work'', n_repeats = Some 0 \<rparr>
        [Returned PNone]
     = (Inl (TestError [PStr ''Unexpected failure in test %s'', PStr ''work'']), [],
        [Returned PNone])"
proof -
  have h: "TestResults_init (scripted (Some ''work'')) (Given (Some 0))
     = Inr \<lparr> test = scripted (Some ''work''), test_name = ''work'', n_repeats = Some 0 \<rparr>"
    by (simp add: TestResults_init_def scripted_def)
  from run_nonpositive_n_repeats[OF h, of "[Returned PNone]"] h show ?thesis by simp
qed

subsection \<open>C4: what a successful run returns\<close>

text \<open>
  C4, as the code has it. When \<^verbatim>\<open>run\<close> returns, on attempt \<open>k\<close> (the number of
  invocations made), the value it returns is the very value the test returned on that
  attempt, unchanged: \<^verbatim>\<open>_log_test_results\<close> hands back its argument. The attempt number
  \<open>k\<close> lies between 1 and \<^verbatim>\<open>n_repeats\<close> and appears in the record
  \<^verbatim>\<open>"Test %s (Attempt %s) - Successful"\<close> only.
\<close>

theorem run_returns_result_unchanged:
  assumes "n_repeats tr = Some n" and "run tr w = (Inr v, evs, w')"
  shows "1 \<le> invocations evs \<and> int (invocations evs) \<le> n
       \<and> outcomes (test tr) (invocations evs) w ! (invocations evs - 1) = Returned v
       \<and> Log INFO ''Test %s (Attempt %s) - Successful''
            [Val (PStr (test_name tr)), Val (PInt (int (invocations evs)))] \<in> set evs"
proof -
  from assms have "run_attempts tr n [1..n] w = (Inr v, evs, w')" by (simp add: run_def)
  from run_attempts_returned[OF this] obtain j where j: "j < length [1..n]"
    and ij: "invocations evs = Suc j"
    and oj: "outcomes (test tr) (Suc j) w ! j = Returned v"
    and lj: "Log INFO ''Test %s (Attempt %s) - Successful''
                [Val (PStr (test_name tr)), Val (PInt ([1..n] ! j))] \<in> set evs" by blast
  from j have jn: "1 + int j \<le> n" by simp
  then have nth: "[1..n] ! j = 1 + int j" by (rule nth_upto)
  show ?thesis
    using jn ij oj lj unfolding nth by simp
qed

text \<open>The theorem at a run that fails once and then returns the list \<^verbatim>\<open>[7]\<close>.\<close>

theorem run_returns_result_unchanged_witness:
  "n_repeats \<lparr> test = scripted (Some ''work''), test_name = ''work'', n_repeats = Some 3 \<rparr> = Some 3
   \<and> run \<lparr> test = scripted (Some ''work''), test_name = ''work'', n_repeats = Some 3 \<rparr>
        [Raised (PyExc OtherException ''ValueError'' ''boom''), Returned (PList [PInt 7])]
      = (Inr (PList [PInt 7]),
         [Invoked,
          Log ERROR ''Test %s failed (Attempt %s/%s): %s''
            [Val (PStr ''work''), Val (PInt 1), Val (PInt 3),
             Exc (PyExc OtherException ''ValueError'' ''boom'')],
          Invoked,
          Log INFO ''Test %s (Attempt %s) - Successful'' [Val (PStr ''work''), Val (PInt 2)]],
         [])
   \<and> outcomes (scripted (Some ''work'')) 2
        [Raised (PyExc OtherException ''ValueError'' ''boom''), Returned (PList [PInt 7])] ! 1
      = Returned (PList [PInt 7])"
proof -
  let ?tr = "\<lparr> test = scripted (Some ''work''), test_name = ''work'', n_repeats = Some 3 \<rparr>"
  let ?w = "[Raised (PyExc OtherException ''ValueError'' ''boom''), Returned (PList [PInt 7])]"
  let ?evs = "[Invoked,
          Log ERROR ''Test %s failed (Attempt %s/%s): %s''
            [Val (PStr ''work''), Val (PInt 1), Val (PInt 3),
             Exc (PyExc OtherException ''ValueError'' ''boom'')],
          Invoked,
          Log INFO ''Test %s (Attempt %s) - Successful'' [Val (PStr ''work''), Val (PInt 2)]]"
  have h1: "n_repeats ?tr = Some 3" by simp
  have h2: "run ?tr ?w = (Inr (PList [PInt 7]), ?evs, [])"
    by (simp add: run_def scripted_def attempt_body_def log_test_results_def upto_rec1)
  have i: "invocations ?evs = 2" by simp
  from run_returns_result_unchanged[OF h1 h2]
  have "outcomes (test ?tr) 2 ?w ! 1 = Returned (PList [PInt 7])"
    unfolding i by simp
  with h1 h2 show ?thesis by simp
qed

text \<open>
  C4 as stated has the returned value tagged with the attempt number. A run that succeeds
  on its first attempt and a run that succeeds on its second return the same value, so the
  value cannot tell the attempt.
\<close>

theorem returned_value_has_no_attempt_tag:
  "fst (run \<lparr> test = scripted (Some ''work''), test_name = ''work'', n_repeats = Some 3 \<rparr>
          [Returned (PDict [(PStr ''sort'', PDict [(PStr ''best_fit'', PStr ''Linear'')])])])
     = Inr (PDict [(PStr ''sort'', PDict [(PStr ''best_fit'', PStr ''Linear'')])])
   \<and> fst (run \<lparr> test = scripted (Some ''work''), test_name = ''work'', n_repeats = Some 3 \<rparr>
          [Raised (PyExc OtherException ''ValueError'' ''boom''),
           Returned (PDict [(PStr ''sort'', PDict [(PStr ''best_fit'', PStr ''Linear'')])])])
     = Inr (PDict [(PStr ''sort'', PDict [(PStr ''best_fit'', PStr ''Linear'')])])
   \<and> invocations (fst (snd (run
          \<lparr> test = scripted (Some ''work''), test_name = ''work'', n_repeats = Some 3 \<rparr>
          [Returned (PDict [(PStr ''sort'', PDict [(PStr ''best_fit'', PStr ''Linear'')])])])))
     = 1
   \<and> invocations (fst (snd (run
          \<lparr> test = scripted (Some ''work''), test_name = ''work'', n_repeats = Some 3 \<rparr>
          [Raised (PyExc OtherException ''ValueError'' ''boom''),
           Returned (PDict [(PStr ''sort'', PDict [(PStr ''best_fit'', PStr ''Linear'')])])])))
     = 2"
  by (simp add: run_def scripted_def attempt_body_def log_test_results_def upto_rec1)

subsection \<open>C6: which failures are retried\<close>

text \<open>
  C6, as the code has it. The code has no InsufficientDataError and no failure that is
  exempt from retry: \<^verbatim>\<open>test_algorithm\<close> always asks \<^verbatim>\<open>big_o\<close> for 10 size samples, and
  every failed attempt is retried while attempts remain. When the first \<open>k\<close> attempts all
  raise an exception of class \<^verbatim>\<open>Exception\<close>, whatever its class name and message, and
  more than \<open>k\<close> attempts are configured, the test is invoked at least \<open>k + 1\<close> times (and
  never more often than configured), and the run never ends by raising such an exception
  itself.
\<close>

theorem every_exception_is_retried:
  assumes "n_repeats tr = Some n" and "int k < n"
    and "list_all failure (outcomes (test tr) k w)"
  shows "n_measures (big_o_args t) = 10
       \<and> Suc k \<le> invocations (fst (snd (run tr w)))
       \<and> int (invocations (fst (snd (run tr w)))) \<le> n
       \<and> (\<forall>c m. fst (run tr w) \<noteq> Inl (Other (PyExc OtherException c m)))"
proof -
  from assms(2) have l: "k < length [1..n]" and s: "int (Suc k) \<le> n" by simp_all
  from run_attempts_failures_retried[OF l upto_take_notin[OF s] assms(3)] assms(1)
  have a: "Suc k \<le> invocations (fst (snd (run tr w)))" by (simp add: run_def)
  obtain r evs w' where r: "run_attempts tr n [1..n] w = (r, evs, w')"
    by (cases "run_attempts tr n [1..n] w")
  from run_attempts_invocations_le[OF r] assms(1,2) r
  have b: "int (invocations (fst (snd (run tr w)))) \<le> n" by (simp add: run_def)
  from a b run_never_raises_exception_itself[OF assms(1)] show ?thesis
    by (simp add: big_o_args_def)
qed

text \<open>
  The theorem for an error named InsufficientDataError raised by the first two of three
  attempts: the third attempt is made, and its result returned.
\<close>

theorem every_exception_is_retried_witness:
  "n_repeats \<lparr> test = scripted (Some ''work''), test_name = ''work'', n_repeats = Some 3 \<rparr> = Some 3
   \<and> int 2 < 3
   \<and> list_all failure (outcomes (scripted (Some ''work'')) 2
        [Raised (PyExc OtherException ''InsufficientDataError'' ''one size''),
         Raised (PyExc OtherException ''InsufficientDataError'' ''one size''),
         Returned (PList [PInt 7])])
   \<and> n_measures (big_o_args (AlgorithmTest_init ''Binary Search'' binary_search_wrapper
        lambda_n_n Omitted)) = 10
   \<and> Suc 2 \<le> invocations (fst (snd (run
        \<lparr> test = scripted (Some ''work''), test_name = ''work'', n_repeats = Some 3 \<rparr>
        [Raised (PyExc OtherException ''InsufficientDataError'' ''one size''),
         Raised (PyExc OtherException ''InsufficientDataError'' ''one size''),
         Returned (PList [PInt 7])])))
   \<and> fst (run
        \<lparr> test = scripted (Some ''work''), test_name = ''work'', n_repeats = Some 3 \<rparr>
        [Raised (PyExc OtherException ''InsufficientDataError'' ''one size''),
         Raised (PyExc OtherException ''InsufficientDataError'' ''one size''),
         Returned (PList [PInt 7])])
      = Inr (PList [PInt 7])"
proof -
  let ?tr = "\<lparr> test = scripted (Some ''work''), test_name = ''work'', n_repeats = Some 3 \<rparr>"
  let ?w = "[Raised (PyExc OtherException ''InsufficientDataError'' ''one size''),
         Raised (PyExc OtherException ''InsufficientDataError'' ''one size''),
         Returned (PList [PInt 7])]"
  have h1: "n_repeats ?tr = Some 3" by simp
  have h2: "int 2 < 3" by simp
  have h3: "list_all failure (outcomes (test ?tr) 2 ?w)"
    by (simp add: scripted_def numeral_2_eq_2)
  have r: "fst (run ?tr ?w) = Inr (PList [PInt 7])"
    by (simp add: run_def scripted_def attempt_body_def log_test_results_def upto_rec1)
  from every_exception_is_retried[OF h1 h2 h3,
      of "AlgorithmTest_init ''Binary Search'' binary_search_wrapper lambda_n_n Omitted"]
    h1 h2 h3 r
  show ?thesis by simp
qed

text \<open>
  C6 as stated has an InsufficientDataError end the run without retry. With two attempts
  configured, a test raising that error is invoked twice, and the run ends in the ordinary
  \<^verbatim>\<open>TestError\<close>.
\<close>

theorem insufficient_data_error_is_retried:
  "run \<lparr> test = scripted (Some ''work''), test_name = ''work'', n_repeats = Some 2 \<rparr>
     [Raised (PyExc OtherException ''InsufficientDataError'' ''one size''),
      Raised (PyExc OtherException ''InsufficientDataError'' ''one size'')]
   = (Inl (TestError [PStr ''Test %s failed after %s attempts'', PStr ''work'', PInt 2]),
      [Invoked,
       Log ERROR ''Test %s failed (Attempt %s/%s): %s''
         [Val (PStr ''work''), Val (PInt 1), Val (PInt 2),
          Exc (PyExc OtherException ''InsufficientDataError'' ''one size'')],
       Invoked,
       Log ERROR ''Test %s failed (Attempt %s/%s): %s''
         [Val (PStr ''work''), Val (PInt 2), Val (PInt 2),
          Exc (PyExc OtherException ''InsufficientDataError'' ''one size'')]],
      [])"
  by (simp add: run_def scripted_def attempt_body_def upto_rec1)

subsection \<open>C10: the name in records and errors\<close>

text \<open>
  C10, as the code has it. Constructing \<^verbatim>\<open>TestResults\<close> with a callable that has no
  \<^verbatim>\<open>__name__\<close> raises AttributeError, so no attempt is ever run. Otherwise the name kept
  at construction is the callable's \<^verbatim>\<open>__name__\<close>, and after any run: every record of
  the run is either one of the three written per attempt (timed out, failed, successful),
  which carry that name, or a \<^verbatim>\<open>"Subtest: %s"\<close> or key and value record that carries a
  key, or a key and value, of a result the test returned in one of the attempts made; a
  run that returns \<open>v\<close> ends with the successful record followed by exactly the records
  for the parts of \<open>v\<close>; and a \<^verbatim>\<open>TestError\<close> or \<^verbatim>\<open>TestTimeoutError\<close> raised by the run
  carries the name as its second argument. For the lambda that \<^verbatim>\<open>main\<close> wraps around
  \<^verbatim>\<open>test_algorithm\<close> the name is \<^verbatim>\<open><lambda>\<close>, and the retry count the default 3.
\<close>

theorem attempt_lines_and_errors_carry_dunder_name:
  "(dunder_name c = None \<longrightarrow>
      TestResults_init c nr = Inl (attribute_error (class_name c) ''__name__''))
   \<and> (TestResults_init c nr = Inr tr \<and> run tr w = (r, evs, w') \<longrightarrow>
        dunder_name c = Some (test_name tr)
        \<and> list_all (\<lambda>ev. ev = Invoked \<or> attempt_line (test_name tr) ev
                        \<or> ev \<in> set (returned_details
                                      (outcomes (test tr) (invocations evs) w))) evs
        \<and> (\<forall>v. r = Inr v \<longrightarrow>
              (\<exists>pre k. evs = pre @ Log INFO ''Test %s (Attempt %s) - Successful''
                                     [Val (PStr (test_name tr)), Val (PInt k)]
                                 # detail_records v))
        \<and> (\<forall>args. r = Inl (TestError args) \<or> r = Inl (TestTimeoutError args) \<longrightarrow>
               2 \<le> length args \<and> args ! 1 = PStr (test_name tr)))
   \<and> main_test_runner big_o t =
        Inr \<lparr> test = lambda_test_algorithm big_o t, test_name = ''<lambda>'',
              n_repeats = Some 3 \<rparr>"
proof (intro conjI impI)
  assume "dunder_name c = None"
  then show "TestResults_init c nr = Inl (attribute_error (class_name c) ''__name__'')"
    by (simp add: TestResults_init_def)
next
  assume a: "TestResults_init c nr = Inr tr \<and> run tr w = (r, evs, w')"
  then show "dunder_name c = Some (test_name tr)"
    by (auto simp: TestResults_init_def split: option.splits)
  from a have run: "run tr w = (r, evs, w')" ..
  show "list_all (\<lambda>ev. ev = Invoked \<or> attempt_line (test_name tr) ev
                        \<or> ev \<in> set (returned_details
                                      (outcomes (test tr) (invocations evs) w))) evs"
  proof (cases "n_repeats tr")
    case None
    with run show ?thesis by (auto simp: run_def)
  next
    case (Some n)
    with run have "run_attempts tr n [1..n] w = (r, evs, w')" by (simp add: run_def)
    then show ?thesis by (rule run_attempts_records)
  qed
  show "\<forall>v. r = Inr v \<longrightarrow>
              (\<exists>pre k. evs = pre @ Log INFO ''Test %s (Attempt %s) - Successful''
                                     [Val (PStr (test_name tr)), Val (PInt k)]
                                 # detail_records v)"
  proof (intro allI impI)
    fix v assume v: "r = Inr v"
    show "\<exists>pre k. evs = pre @ Log INFO ''Test %s (Attempt %s) - Successful''
                                     [Val (PStr (test_name tr)), Val (PInt k)]
                                 # detail_records v"
    proof (cases "n_repeats tr")
      case None
      with run v show ?thesis by (auto simp: run_def)
    next
      case (Some n)
      with run v have "run_attempts tr n [1..n] w = (Inr v, evs, w')" by (simp add: run_def)
      then show ?thesis by (rule run_attempts_returned_records)
    qed
  qed
  from a show "\<forall>args. r = Inl (TestError args) \<or> r = Inl (TestTimeoutError args) \<longrightarrow>
               2 \<le> length args \<and> args ! 1 = PStr (test_name tr)"
    using run_error_names[of tr w _ evs w'] by blast
next
  show "main_test_runner big_o t =
        Inr \<lparr> test = lambda_test_algorithm big_o t, test_name = ''<lambda>'',
              n_repeats = Some 3 \<rparr>"
    by (simp add: main_test_runner_def TestResults_init_def lambda_test_algorithm_def)
qed

text \<open>
  The theorem at a callable without \<^verbatim>\<open>__name__\<close>, and at the runner of \<^verbatim>\<open>main\<close> for
  the test case Binary Search, once when \<^verbatim>\<open>big_o\<close> answers and once when it raises a
  ValueError each time.
\<close>

theorem attempt_lines_and_errors_carry_dunder_name_witness:
  "TestResults_init (scripted None) Omitted
     = Inl (attribute_error ''functools.partial'' ''__name__'')
   \<and> TestResults_init
        (lambda_test_algorithm
           (big_o_returning (Complexity ''Logarithmic'') [(Complexity ''Logarithmic'', 1)])
           (AlgorithmTest_init ''Binary Search'' binary_search_wrapper lambda_n_n Omitted))
        Omitted
      = Inr \<lparr> test = lambda_test_algorithm
                        (big_o_returning (Complexity ''Logarithmic'')
                           [(Complexity ''Logarithmic'', 1)])
                        (AlgorithmTest_init ''Binary Search'' binary_search_wrapper lambda_n_n
                           Omitted),
              test_name = ''<lambda>'', n_repeats = Some 3 \<rparr>
   \<and> fst (run \<lparr> test = lambda_test_algorithm
                        (big_o_returning (Complexity ''Logarithmic'')
                           [(Complexity ''Logarithmic'', 1)])
                        (AlgorithmTest_init ''Binary Search'' binary_search_wrapper lambda_n_n
                           Omitted),
              test_name = ''<lambda>'', n_repeats = Some 3 \<rparr>
          \<lparr> rt_log = [], calls = [], ext = () \<rparr>)
      = Inr (PDict [(PStr ''Binary Search'',
               PDict [(PStr ''best_fit'', PStr ''Logarithmic''),
                      (PStr ''other_fits'', PDict [(PStr ''Logarithmic'', PFloat 1)])])])
   \<and> fst (snd (run \<lparr> test = lambda_test_algorithm
                        (big_o_returning (Complexity ''Logarithmic'')
                           [(Complexity ''Logarithmic'', 1)])
                        (AlgorithmTest_init ''Binary Search'' binary_search_wrapper lambda_n_n
                           Omitted),
              test_name = ''<lambda>'', n_repeats = Some 3 \<rparr>
          \<lparr> rt_log = [], calls = [], ext = () \<rparr>))
      = [Invoked,
         Log INFO ''Test %s (Attempt %s) - Successful'' [Val (PStr ''<lambda>''), Val (PInt 1)]]
        @ detail_records (PDict [(PStr ''Binary Search'',
               PDict [(PStr ''best_fit'', PStr ''Logarithmic''),
                      (PStr ''other_fits'', PDict [(PStr ''Logarithmic'', PFloat 1)])])])
   \<and> detail_records (PDict [(PStr ''Binary Search'',
               PDict [(PStr ''best_fit'', PStr ''Logarithmic''),
                      (PStr ''other_fits'', PDict [(PStr ''Logarithmic'', PFloat 1)])])])
      = [Log INFO ''Subtest: %s'' [Val (PStr ''Binary Search'')],
         Log INFO ''  %s: %s'' [Capitalized ''best_fit'', Val (PStr ''Logarithmic'')],
         Log INFO ''  %s: %s''
           [Capitalized ''other_fits'', Val (PDict [(PStr ''Logarithmic'', PFloat 1)])]]
   \<and> fst (run \<lparr> test = lambda_test_algorithm
                        (big_o_raising (PyExc OtherException ''ValueError'' ''boom''))
                        (AlgorithmTest_init ''Binary Search'' binary_search_wrapper lambda_n_n
                           Omitted),
              test_name = ''<lambda>'', n_repeats = Some 3 \<rparr>
          \<lparr> rt_log = [], calls = [], ext = () \<rparr>)
      = Inl (TestError [PStr ''Test %s failed after %s attempts'', PStr ''<lambda>'', PInt 3])
   \<and> [PStr ''Test %s failed after %s attempts'', PStr ''<lambda>'', PInt 3] ! 1
      = PStr ''<lambda>''"
proof -
  let ?t = "AlgorithmTest_init ''Binary Search'' binary_search_wrapper lambda_n_n Omitted"
  let ?c = "lambda_test_algorithm
              (big_o_returning (Complexity ''Logarithmic'') [(Complexity ''Logarithmic'', 1)]) ?t"
  let ?tr = "\<lparr> test = ?c, test_name = ''<lambda>'', n_repeats = Some 3 \<rparr>"
  let ?c2 = "lambda_test_algorithm (big_o_raising (PyExc OtherException ''ValueError'' ''boom'')) ?t"
  let ?tr2 = "\<lparr> test = ?c2, test_name = ''<lambda>'', n_repeats = Some 3 \<rparr>"
  let ?w = "\<lparr> rt_log = [], calls = [], ext = () \<rparr> :: (wrapper, size_generator, unit) rt_world"
  let ?v = "PDict [(PStr ''Binary Search'',
               PDict [(PStr ''best_fit'', PStr ''Logarithmic''),
                      (PStr ''other_fits'', PDict [(PStr ''Logarithmic'', PFloat 1)])])]"
  let ?args = "[PStr ''Test %s failed after %s attempts'', PStr ''<lambda>'', PInt 3]"
  have n: "dunder_name (scripted None) = None" by (simp add: scripted_def)
  from attempt_lines_and_errors_carry_dunder_name
         [where c = "scripted None" and nr = Omitted, THEN conjunct1] n
  have a: "TestResults_init (scripted None) Omitted
     = Inl (attribute_error ''functools.partial'' ''__name__'')"
    by (simp add: scripted_def)
  have i: "TestResults_init ?c Omitted = Inr ?tr"
    by (simp add: TestResults_init_def lambda_test_algorithm_def)
  obtain r evs w' where r: "run ?tr ?w = (r, evs, w')" by (cases "run ?tr ?w")
  have f: "fst (run ?tr ?w) = Inr ?v"
    and e: "fst (snd (run ?tr ?w))
      = [Invoked,
         Log INFO ''Test %s (Attempt %s) - Successful'' [Val (PStr ''<lambda>''), Val (PInt 1)]]
        @ detail_records ?v"
    by (simp_all add: run_def lambda_test_algorithm_def attempt_body_def test_algorithm_def
        big_o_returning_def upto_rec1 AlgorithmTest_init_def other_fits_def
        log_test_results_def)
  from f r have r': "r = Inr ?v" by simp
  from attempt_lines_and_errors_carry_dunder_name[of ?c Omitted ?tr ?w r evs w'] i r r'
  have "\<exists>pre k. evs = pre @ Log INFO ''Test %s (Attempt %s) - Successful''
                                     [Val (PStr (test_name ?tr)), Val (PInt k)]
                                 # detail_records ?v" by blast
  have d: "detail_records ?v
      = [Log INFO ''Subtest: %s'' [Val (PStr ''Binary Search'')],
         Log INFO ''  %s: %s'' [Capitalized ''best_fit'', Val (PStr ''Logarithmic'')],
         Log INFO ''  %s: %s''
           [Capitalized ''other_fits'', Val (PDict [(PStr ''Logarithmic'', PFloat 1)])]]"
    by simp
  have i2: "TestResults_init ?c2 Omitted = Inr ?tr2"
    by (simp add: TestResults_init_def lambda_test_algorithm_def)
  obtain r2 evs2 w2 where r2: "run ?tr2 ?w = (r2, evs2, w2)" by (cases "run ?tr2 ?w")
  have f2: "fst (run ?tr2 ?w) = Inl (TestError ?args)"
    by (simp add: run_def lambda_test_algorithm_def attempt_body_def test_algorithm_def
        big_o_raising_def upto_rec1)
  with r2 have r2': "r2 = Inl (TestError ?args)" by simp
  from attempt_lines_and_errors_carry_dunder_name[of ?c2 Omitted ?tr2 ?w r2 evs2 w2] i2 r2 r2'
  have g: "?args ! 1 = PStr (test_name ?tr2)" by blast
  from a i f e d f2 g show ?thesis by simp
qed

text \<open>
  C10 as stated has every log record carry the callable's name and none the name of the
  AlgorithmTest. In the run of \<^verbatim>\<open>main\<close> for Binary Search, when \<^verbatim>\<open>big_o\<close> answers, the
  record \<^verbatim>\<open>"Subtest: %s"\<close> carries the key of the result dict, which is the name of the
  AlgorithmTest.
\<close>

theorem subtest_line_carries_algorithm_test_name:
  "main_test_runner
     (big_o_returning (Complexity ''Logarithmic'')
        [(Complexity ''Constant'', 2), (Complexity ''Logarithmic'', 1)])
     (AlgorithmTest_init ''Binary Search'' binary_search_wrapper lambda_n_n Omitted)
   = Inr \<lparr> test = lambda_test_algorithm
                     (big_o_returning (Complexity ''Logarithmic'')
                        [(Complexity ''Constant'', 2), (Complexity ''Logarithmic'', 1)])
                     (AlgorithmTest_init ''Binary Search'' binary_search_wrapper lambda_n_n
                        Omitted),
           test_name = ''<lambda>'', n_repeats = Some 3 \<rparr>
   \<and> fst (snd (run
        \<lparr> test = lambda_test_algorithm
                   (big_o_returning (Complexity ''Logarithmic'')
                      [(Complexity ''Constant'', 2), (Complexity ''Logarithmic'', 1)])
                   (AlgorithmTest_init ''Binary Search'' binary_search_wrapper lambda_n_n
                      Omitted),
          test_name = ''<lambda>'', n_repeats = Some 3 \<rparr>
        \<lparr> rt_log = [], calls = [], ext = () \<rparr>))
     = [Invoked,
        Log INFO ''Test %s (Attempt %s) - Successful'' [Val (PStr ''<lambda>''), Val (PInt 1)],
        Log INFO ''Subtest: %s'' [Val (PStr ''Binary Search'')],
        Log INFO ''  %s: %s'' [Capitalized ''best_fit'', Val (PStr ''Logarithmic'')],
        Log INFO ''  %s: %s''
          [Capitalized ''other_fits'',
           Val (PDict [(PStr ''Constant'', PFloat 2), (PStr ''Logarithmic'', PFloat 1)])]]
   \<and> \<not> attempt_line ''<lambda>'' (Log INFO ''Subtest: %s'' [Val (PStr ''Binary Search'')])"
  by (simp add: main_test_runner_def TestResults_init_def run_def lambda_test_algorithm_def
      attempt_body_def test_algorithm_def big_o_returning_def upto_rec1 AlgorithmTest_init_def
      big_o_args_def other_fits_def log_test_results_def)

subsection \<open>C3: the configuration parameters\<close>

text \<open>
  C3, as the code has it. The values are the stated ones, but only the retry count can be
  set by the caller. Whatever the AlgorithmTest, the library and the world,
  \<^verbatim>\<open>test_algorithm\<close> calls \<^verbatim>\<open>big_o\<close> with \<^verbatim>\<open>min_n=100\<close>, \<^verbatim>\<open>max_n=10000\<close>,
  \<^verbatim>\<open>n_measures=10\<close> and \<^verbatim>\<open>n_timings=5\<close> (of the test it passes on the function, the
  generator and \<^verbatim>\<open>n_repeats\<close>). \<^verbatim>\<open>TestResults\<close> takes \<^verbatim>\<open>n_repeats\<close> 3 when none is
  given and the given one otherwise. \<^verbatim>\<open>run\<close> awaits every attempt with the timeout 10:
  two callables that behave alike under that timeout give the same run, however they
  behave under any other.
\<close>

theorem configuration_as_coded:
  "calls (snd (test_algorithm big_o t w))
     = calls w @ [\<lparr> bo_func = func t, bo_generator = generator t,
                     min_n = 100, max_n = 10000, n_measures = 10,
                     bo_n_repeats = n_repeats_at t, n_timings = 5 \<rparr>]
   \<and> (dunder_name c = Some nm \<longrightarrow>
        TestResults_init c Omitted = Inr \<lparr> test = c, test_name = nm, n_repeats = Some 3 \<rparr>
        \<and> TestResults_init c (Given v) = Inr \<lparr> test = c, test_name = nm, n_repeats = v \<rparr>)
   \<and> (awaited c1 10 = awaited c2 10 \<longrightarrow>
        run \<lparr> test = c1, test_name = nm', n_repeats = nr \<rparr> u
          = run \<lparr> test = c2, test_name = nm', n_repeats = nr \<rparr> u)"
proof (intro conjI impI)
  show "calls (snd (test_algorithm big_o t w))
     = calls w @ [\<lparr> bo_func = func t, bo_generator = generator t,
                     min_n = 100, max_n = 10000, n_measures = 10,
                     bo_n_repeats = n_repeats_at t, n_timings = 5 \<rparr>]"
    by (auto simp: test_algorithm_def big_o_args_def Let_def
        split: prod.splits sum.splits pyexc.splits exc_kind.splits)
next
  assume "dunder_name c = Some nm"
  then show "TestResults_init c Omitted = Inr \<lparr> test = c, test_name = nm, n_repeats = Some 3 \<rparr>"
    and "TestResults_init c (Given v) = Inr \<lparr> test = c, test_name = nm, n_repeats = v \<rparr>"
    by (simp_all add: TestResults_init_def)
next
  assume a: "awaited c1 10 = awaited c2 10"
  show "run \<lparr> test = c1, test_name = nm', n_repeats = nr \<rparr> u
          = run \<lparr> test = c2, test_name = nm', n_repeats = nr \<rparr> u"
  proof (cases nr)
    case None
    then show ?thesis by (simp add: run_def)
  next
    case (Some n)
    have "run_attempts \<lparr> test = c1, test_name = nm', n_repeats = nr \<rparr> n [1..n] u
        = run_attempts \<lparr> test = c2, test_name = nm', n_repeats = nr \<rparr> n [1..n] u"
      by (rule run_attempts_same_await) (simp_all add: a)
    with Some show ?thesis by (simp add: run_def)
  qed
qed

text \<open>
  The theorem at a test case built with \<^verbatim>\<open>n_repeats=7\<close>, and at two callables that need
  11 and 12 seconds: they differ under a timeout of 12 and give the same run.
\<close>

theorem configuration_as_coded_witness:
  "calls (snd (test_algorithm
       (big_o_returning (Complexity ''Logarithmic'') [(Complexity ''Logarithmic'', 1)])
       (AlgorithmTest_init ''Binary Search'' binary_search_wrapper lambda_n_n (Given 7))
       \<lparr> rt_log = [], calls = [], ext = () \<rparr>))
     = [\<lparr> bo_func = binary_search_wrapper, bo_generator = lambda_n_n,
           min_n = 100, max_n = 10000, n_measures = 10, bo_n_repeats = 7, n_timings = 5 \<rparr>]
   \<and> TestResults_init (taking 11 PNone) Omitted
       = Inr \<lparr> test = taking 11 PNone, test_name = ''taking'', n_repeats = Some 3 \<rparr>
   \<and> TestResults_init (taking 11 PNone) (Given (Some 5))
       = Inr \<lparr> test = taking 11 PNone, test_name = ''taking'', n_repeats = Some 5 \<rparr>
   \<and> awaited (taking 11 PNone) 10 = awaited (taking 12 PNone) 10
   \<and> awaited (taking 11 PNone) 12 () \<noteq> awaited (taking 12 PNone) 12 ()
   \<and> run \<lparr> test = taking 11 PNone, test_name = ''taking'', n_repeats = Some 5 \<rparr> ()
       = run \<lparr> test = taking 12 PNone, test_name = ''taking'', n_repeats = Some 5 \<rparr> ()"
proof -
  have n: "dunder_name (taking 11 PNone) = Some ''taking''" by (simp add: taking_def)
  have a: "awaited (taking 11 PNone) 10 = awaited (taking 12 PNone) 10"
    by (simp add: taking_def)
  have d: "awaited (taking 11 PNone) 12 () \<noteq> awaited (taking 12 PNone) 12 ()"
    by (simp add: taking_def)
  note th = configuration_as_coded
    [where c = "taking 11 PNone" and nm = "''taking''" and v = "Some 5"
       and ?c1.0 = "taking 11 PNone" and ?c2.0 = "taking 12 PNone" and nm' = "''taking''"
       and nr = "Some 5" and u = "()"
       and big_o = "big_o_returning (Complexity ''Logarithmic'') [(Complexity ''Logarithmic'', 1)]"
       and t = "AlgorithmTest_init ''Binary Search'' binary_search_wrapper lambda_n_n (Given 7)"
       and w = "\<lparr> rt_log = [], calls = [], ext = () \<rparr>"]
  from th n a d show ?thesis by (simp add: AlgorithmTest_init_def)
qed

text \<open>
  C3 as stated has every parameter overridable per call. No AlgorithmTest, however it is
  constructed, makes \<^verbatim>\<open>test_algorithm\<close> call \<^verbatim>\<open>big_o\<close> with a \<^verbatim>\<open>min_n\<close> of 200.
\<close>

theorem sweep_parameters_not_overridable:
  "\<not> (\<exists>nm f g nr (big_o :: (wrapper, size_generator, unit) big_o) w.
        min_n (last (calls (snd (test_algorithm big_o (AlgorithmTest_init nm f g nr) w)))) = 200)"
  by (auto simp: test_algorithm_def big_o_args_def Let_def
      split: prod.splits sum.splits pyexc.splits exc_kind.splits)

subsection \<open>C5: an error of the timed function\<close>



subsection \<open>C7: the fits in a result\<close>

text \<open>
  C7, as the code has it. \<^verbatim>\<open>test_algorithm\<close> does not rank: it reports what
  \<^verbatim>\<open>big_o.big_o\<close> returned. When that is \<^verbatim>\<open>(best, others)\<close>, with classes of different
  \<^verbatim>\<open>str()\<close>, the result holds \<^verbatim>\<open>str(best)\<close> as \<^verbatim>\<open>best_fit\<close> and, as \<^verbatim>\<open>other_fits\<close>,
  the classes of \<^verbatim>\<open>others\<close> with their residuals in the order \<^verbatim>\<open>others\<close> has them; so
  the residuals are those of \<^verbatim>\<open>others\<close> in that order, and \<^verbatim>\<open>other_fits\<close> is empty
  exactly when \<^verbatim>\<open>others\<close> is.
\<close>

theorem fits_reported_in_given_order:
  assumes "big_o (big_o_args t) (ext w) = (Inr (best, others), x')"
    and "distinct (map (\<lambda>(c, r). str_of c) others)"
  shows "fst (test_algorithm big_o t w) =
           Returned (PDict [(PStr (name t),
              PDict [(PStr ''best_fit'', PStr (str_of best)),
                     (PStr ''other_fits'',
                      PDict (map (\<lambda>(c, r). (PStr (str_of c), PFloat r)) others))])])
       \<and> residuals (other_fits others) = map snd others
       \<and> (other_fits others = [] \<longleftrightarrow> others = [])"
proof -
  have r: "residuals (map (\<lambda>(c, r). (PStr (str_of c), PFloat r)) others) = map snd others"
    by (induction others) (auto simp: residuals_def)
  from assms(1) have "fst (test_algorithm big_o t w) =
           Returned (PDict [(PStr (name t),
              PDict [(PStr ''best_fit'', PStr (str_of best)),
                     (PStr ''other_fits'', PDict (other_fits others))])])"
    by (simp add: test_algorithm_def Let_def)
  with other_fits_distinct[OF assms(2)] r other_fits_empty show ?thesis by simp
qed

text \<open>The theorem at an answer of the library with two fitted classes.\<close>

theorem fits_reported_in_given_order_witness:
  "big_o_returning (Complexity ''Linear'') [(Complexity ''Linear'', 1), (Complexity ''Quadratic'', 4)]
     (big_o_args (AlgorithmTest_init ''Remove Duplicates (Front)'' remove_duplicates_wrapper
        lambda_n_n Omitted)) ()
     = (Inr (Complexity ''Linear'', [(Complexity ''Linear'', 1), (Complexity ''Quadratic'', 4)]), ())
   \<and> distinct (map (\<lambda>(c, r). str_of c)
        [(Complexity ''Linear'', 1::real), (Complexity ''Quadratic'', 4)])
   \<and> fst (test_algorithm
        (big_o_returning (Complexity ''Linear'')
           [(Complexity ''Linear'', 1), (Complexity ''Quadratic'', 4)])
        (AlgorithmTest_init ''Remove Duplicates (Front)'' remove_duplicates_wrapper
           lambda_n_n Omitted)
        \<lparr> rt_log = [], calls = [], ext = () \<rparr>)
     = Returned (PDict [(PStr ''Remove Duplicates (Front)'',
          PDict [(PStr ''best_fit'', PStr ''Linear''),
                 (PStr ''other_fits'',
                  PDict [(PStr ''Linear'', PFloat 1), (PStr ''Quadratic'', PFloat 4)])])])
   \<and> residuals (other_fits [(Complexity ''Linear'', 1), (Complexity ''Quadratic'', 4)]) = [1, 4]"
proof -
  let ?others = "[(Complexity ''Linear'', 1::real), (Complexity ''Quadratic'', 4)]"
  let ?t = "AlgorithmTest_init ''Remove Duplicates (Front)'' remove_duplicates_wrapper
              lambda_n_n Omitted"
  let ?w = "\<lparr> rt_log = [], calls = [], ext = () \<rparr> :: (wrapper, size_generator, unit) rt_world"
  have h1: "big_o_returning (Complexity ''Linear'') ?others (big_o_args ?t) (ext ?w)
      = (Inr (Complexity ''Linear'', ?others), ())"
    by (simp add: big_o_returning_def)
  have h2: "distinct (map (\<lambda>(c, r). str_of c) ?others)" by simp
  from fits_reported_in_given_order[of "big_o_returning (Complexity ''Linear'') ?others" ?t ?w
      "Complexity ''Linear''" ?others "()", OF h1 h2] h1 h2
  show ?thesis by (simp add: AlgorithmTest_init_def)
qed

text \<open>
  C7 as stated has the fits sorted by residual and the best fit first. When the library
  returns the fits in the order Constant (residual 5), Linear (residual 1) and Linear as the
  best, the result lists them in that order: not ascending, and its first entry is not the
  best fit.
\<close>

theorem fits_not_ranked_by_residual:
  "fst (test_algorithm
        (big_o_returning (Complexity ''Linear'')
           [(Complexity ''Constant'', 5), (Complexity ''Linear'', 1)])
        (AlgorithmTest_init ''Remove Duplicates (Front)'' remove_duplicates_wrapper
           lambda_n_n Omitted)
        \<lparr> rt_log = [], calls = [], ext = () \<rparr>)
     = Returned (PDict [(PStr ''Remove Duplicates (Front)'',
          PDict [(PStr ''best_fit'', PStr ''Linear''),
                 (PStr ''other_fits'',
                  PDict [(PStr ''Constant'', PFloat 5), (PStr ''Linear'', PFloat 1)])])])
   \<and> \<not> sorted (residuals [(PStr ''Constant'', PFloat 5), (PStr ''Linear'', PFloat 1)])
   \<and> fst (hd [(PStr ''Constant'', PFloat 5), (PStr ''Linear'', PFloat 1)]) \<noteq> PStr ''Linear''"
  by (simp add: test_algorithm_def big_o_returning_def AlgorithmTest_init_def other_fits_def
      residuals_def)

subsection \<open>C1: how often the test is invoked\<close>

text \<open>
  C1. Two parts of it hold on the code and are the lemmas \<open>run_all_fail\<close> (when all
  \<open>n\<close> attempts fail, \<^verbatim>\<open>run\<close> raises after exactly \<open>n\<close> invocations) and
  \<open>run_first_success\<close> (when the first success is on attempt \<open>k\<close> and its result is one
  \<^verbatim>\<open>_log_test_results\<close> gets through, \<^verbatim>\<open>run\<close> returns it after exactly \<open>k\<close>
  invocations). The part that does not: a test that succeeds with a dict whose values are
  not dicts. \<^verbatim>\<open>_log_test_results\<close> is called inside the \<^verbatim>\<open>try\<close> block and raises
  AttributeError on such a result, which \<^verbatim>\<open>except Exception\<close> takes for a failed
  attempt. Below, the test returns \<^verbatim>\<open>{"accuracy": 1.0}\<close> on each of three attempts; it is
  invoked three times and the run ends in \<^verbatim>\<open>TestError\<close>.
\<close>

theorem flat_dict_result_counts_as_failure:
  "outcomes (scripted (Some ''work'')) 3
        [Returned (PDict [(PStr ''accuracy'', PFloat 1)]),
         Returned (PDict [(PStr ''accuracy'', PFloat 1)]),
         Returned (PDict [(PStr ''accuracy'', PFloat 1)])]
      = [Returned (PDict [(PStr ''accuracy'', PFloat 1)]),
         Returned (PDict [(PStr ''accuracy'', PFloat 1)]),
         Returned (PDict [(PStr ''accuracy'', PFloat 1)])]
   \<and> fst (run \<lparr> test = scripted (Some ''work''), test_name = ''work'', n_repeats = Some 3 \<rparr>
        [Returned (PDict [(PStr ''accuracy'', PFloat 1)]),
         Returned (PDict [(PStr ''accuracy'', PFloat 1)]),
         Returned (PDict [(PStr ''accuracy'', PFloat 1)])])
      = Inl (TestError [PStr ''Test %s failed after %s attempts'', PStr ''work'', PInt 3])
   \<and> invocations (fst (snd (run
        \<lparr> test = scripted (Some ''work''), test_name = ''work'', n_repeats = Some 3 \<rparr>
        [Returned (PDict [(PStr ''accuracy'', PFloat 1)]),
         Returned (PDict [(PStr ''accuracy'', PFloat 1)]),
         Returned (PDict [(PStr ''accuracy'', PFloat 1)])]))) = 3"
  by (simp add: run_def scripted_def attempt_body_def log_test_results_def upto_rec1
      attribute_error_def numeral_3_eq_3)

end
